theory Spec2Isabelle
  imports Complex_Main "HOL-Library.AList"
begin

section \<open>Values shared by the scheduler and the browser check\<close>

text \<open>
  A JavaScript exception is a value: every function that can throw returns
  \<open>error + 'a\<close>, with \<open>Inl\<close> for the thrown error.
\<close>

datatype error = Error string

text \<open>
  A row of the \<open>monitor\<close> table, with the fields the scheduler and the browser check
  read. \<open>interval\<close> and \<open>remote_browser\<close> may be null in the row (\<open>None\<close>).
\<close>

record monitor =
  mon_id :: nat
  mon_name :: string
  interval :: "int option"
  active :: bool
  url :: string
  remote_browser :: "nat option"
  user_id :: nat

text \<open>
  The three queries the source sends to the store, over the rows of the table:
  \<open>R.find("monitor", "active = 1")\<close>,
  \<open>R.findOne("monitor", "id = ? AND active = 1", [id])\<close> and
  \<open>R.findOne("monitor", "id = ?", [id])\<close>.
\<close>

definition find_active :: "monitor list \<Rightarrow> monitor list" where
  "find_active rows = filter active rows"

definition findOne_active :: "monitor list \<Rightarrow> nat \<Rightarrow> monitor option" where
  "findOne_active rows i = find (\<lambda>m. mon_id m = i \<and> active m) rows"

definition findOne :: "monitor list \<Rightarrow> nat \<Rightarrow> monitor option" where
  "findOne rows i = find (\<lambda>m. mon_id m = i) rows"

subsection \<open>Template strings\<close>

text \<open>
  The decimal rendering JavaScript gives a non-negative integer inside a template
  string, and the two templates of the source: the job name \<open>monitor-${id}\<close> and the
  job id \<open>monitor-${id}-${Date.now()}\<close>.
\<close>

definition digit :: "nat \<Rightarrow> char" where
  "digit n = ''0123456789'' ! n"

fun dec :: "nat \<Rightarrow> string" where
  "dec n = (if n < 10 then [digit n] else dec (n div 10) @ [digit (n mod 10)])"

declare dec.simps [simp del]

definition job_name_of :: "nat \<Rightarrow> string" where
  "job_name_of i = ''monitor-'' @ dec i"

definition job_id_of :: "nat \<Rightarrow> nat \<Rightarrow> string" where
  "job_id_of i t = ''monitor-'' @ dec i @ ''-'' @ dec t"

section \<open>The job queue\<close>

text \<open>
  The queue \<open>monitor-checks\<close> lives in the broker. The library that drives it is not part
  of the repository; the model keeps what the source relies on: a job has an id, a name,
  its payload \<open>{ monitorId }\<close>, a delay in milliseconds, the time it was added, the number
  of attempts made and a state. \<open>add\<close> without a \<open>jobId\<close> option draws the id from the
  queue's counter; \<open>add\<close> with a \<open>jobId\<close> that the queue already holds adds nothing.
\<close>

datatype job_state = Waiting | Delayed | Active | Completed | Failed

record job =
  jobId :: string
  job_name :: string
  monitorId :: nat
  delay :: real
  timestamp :: nat
  attemptsMade :: nat
  jstate :: job_state

record queue =
  jobs :: "job list"
  counter :: nat

definition empty_queue :: queue where
  "empty_queue = \<lparr>jobs = [], counter = 0\<rparr>"

definition new_job :: "string \<Rightarrow> string \<Rightarrow> nat \<Rightarrow> real \<Rightarrow> nat \<Rightarrow> job" where
  "new_job jid nm mid d t =
     \<lparr>jobId = jid, job_name = nm, monitorId = mid, delay = d, timestamp = t,
      attemptsMade = 0, jstate = (if d > 0 then Delayed else Waiting)\<rparr>"

definition queue_add :: "string \<Rightarrow> nat \<Rightarrow> real \<Rightarrow> string option \<Rightarrow> nat \<Rightarrow> queue \<Rightarrow> queue" where
  "queue_add nm mid d jid t q =
     (case jid of
        None \<Rightarrow>
          q\<lparr>jobs := jobs q @ [new_job (dec (Suc (counter q))) nm mid d t],
            counter := Suc (counter q)\<rparr>
      | Some i \<Rightarrow>
          if i \<in> set (map jobId (jobs q)) then q
          else q\<lparr>jobs := jobs q @ [new_job i nm mid d t]\<rparr>)"

text \<open>One entry of \<open>addBulk\<close>: \<open>{ name, data: { monitorId }, opts: { delay, jobId } }\<close>.\<close>

record bulk_entry =
  b_name :: string
  b_monitorId :: nat
  b_delay :: real
  b_jobId :: string

fun queue_addBulk :: "bulk_entry list \<Rightarrow> nat \<Rightarrow> queue \<Rightarrow> queue" where
  "queue_addBulk [] t q = q"
| "queue_addBulk (b # bs) t q =
     queue_addBulk bs t (queue_add (b_name b) (b_monitorId b) (b_delay b) (Some (b_jobId b)) t q)"

text \<open>\<open>obliterate({ force: true })\<close> deletes the queue with all its jobs, active ones included.\<close>

definition obliterate :: "queue \<Rightarrow> queue" where
  "obliterate q = empty_queue"

text \<open>\<open>getJobs(["waiting", "delayed"], 0, -1)\<close> and \<open>job.remove()\<close>.\<close>

definition getJobs_pending :: "queue \<Rightarrow> job list" where
  "getJobs_pending q = filter (\<lambda>j. jstate j = Waiting \<or> jstate j = Delayed) (jobs q)"

definition job_remove :: "job \<Rightarrow> queue \<Rightarrow> queue" where
  "job_remove j q = q\<lparr>jobs := filter (\<lambda>k. jobId k \<noteq> jobId j) (jobs q)\<rparr>"

text \<open>A job is outstanding while it is waiting, delayed or being executed.\<close>

definition is_outstanding :: "job \<Rightarrow> bool" where
  "is_outstanding j = (jstate j = Waiting \<or> jstate j = Delayed \<or> jstate j = Active)"

definition outstanding :: "queue \<Rightarrow> nat \<Rightarrow> job list" where
  "outstanding q i = filter (\<lambda>j. monitorId j = i \<and> is_outstanding j) (jobs q)"

section \<open>QueueManager\<close>

text \<open>
  The constructor's settings: the default job options of the queue and the worker's
  concurrency and rate limit. \<open>QUEUE_CONCURRENCY\<close> is read through
  \<open>parseInt(...) || 50\<close>: an unset or unparsable variable (\<open>None\<close>) and \<open>0\<close> give 50.
\<close>

record job_options =
  removeOnComplete :: nat
  removeOnFail :: nat
  attempts :: nat
  backoff_exponential :: bool
  backoff_delay :: nat

record queue_manager =
  defaultJobOptions :: job_options
  concurrency :: nat
  limiter_max :: nat
  limiter_duration :: nat

definition new_QueueManager :: "nat option \<Rightarrow> queue_manager" where
  "new_QueueManager env_concurrency =
     \<lparr>defaultJobOptions =
        \<lparr>removeOnComplete = 100, removeOnFail = 50, attempts = 3,
         backoff_exponential = True, backoff_delay = 2000\<rparr>,
      concurrency = (case env_concurrency of None \<Rightarrow> 50 | Some c \<Rightarrow> if c = 0 then 50 else c),
      limiter_max = 1000,
      limiter_duration = 60000\<rparr>"

text \<open>
  \<open>scheduleNextCheck(monitor)\<close>: the delay is \<open>(monitor.interval || 60) * 1000\<close>, the job id
  carries the clock reading \<open>t\<close> of \<open>Date.now()\<close>.
\<close>

definition interval_or_default :: "monitor \<Rightarrow> int" where
  "interval_or_default m = (case interval m of None \<Rightarrow> 60 | Some i \<Rightarrow> if i = 0 then 60 else i)"

definition scheduleNextCheck :: "monitor \<Rightarrow> nat \<Rightarrow> queue \<Rightarrow> queue" where
  "scheduleNextCheck m t q =
     queue_add (job_name_of (mon_id m)) (mon_id m) (real_of_int (interval_or_default m * 1000))
       (Some (job_id_of (mon_id m) t)) t q"

text \<open>
  \<open>startAllMonitors()\<close>: read the active monitors, obliterate the queue, build one entry
  per monitor and add them in bulk. The callback of \<open>monitors.map\<close> calls \<open>Math.random()\<close>
  and \<open>Date.now()\<close> once per monitor: \<open>rnd k\<close> and \<open>clock k\<close> are the values the \<open>k\<close>-th call
  returns.
\<close>

fun start_entries :: "monitor list \<Rightarrow> nat \<Rightarrow> (nat \<Rightarrow> real) \<Rightarrow> (nat \<Rightarrow> nat) \<Rightarrow> bulk_entry list" where
  "start_entries [] k rnd clock = []"
| "start_entries (m # ms) k rnd clock =
     \<lparr>b_name = job_name_of (mon_id m), b_monitorId = mon_id m,
      b_delay = rnd k * 10000, b_jobId = job_id_of (mon_id m) (clock k)\<rparr>
     # start_entries ms (Suc k) rnd clock"

definition qm_startAllMonitors :: "monitor list \<Rightarrow> (nat \<Rightarrow> real) \<Rightarrow> (nat \<Rightarrow> nat) \<Rightarrow> queue \<Rightarrow> queue" where
  "qm_startAllMonitors rows rnd clock q =
     (let monitors = find_active rows;
          q1 = obliterate q;
          entries = start_entries monitors 0 rnd clock
      in queue_addBulk entries (clock (length monitors)) q1)"

text \<open>\<open>stopMonitor(monitorId)\<close>: remove every waiting or delayed job of the monitor.\<close>

definition qm_stopMonitor :: "nat \<Rightarrow> queue \<Rightarrow> queue" where
  "qm_stopMonitor i q =
     fold job_remove (filter (\<lambda>j. monitorId j = i) (getJobs_pending q)) q"

text \<open>
  \<open>processMonitorJob(job)\<close>. \<open>beat m\<close> is the outcome of \<open>executeMonitorBeat(monitor, io)\<close>,
  whose body (\<open>performCheck\<close>) belongs to the monitor model: \<open>None\<close> when it returns,
  \<open>Some e\<close> when it throws \<open>e\<close>. The handler catches the error, logs it and throws it
  again; \<open>t\<close> is the reading of \<open>Date.now()\<close> inside \<open>scheduleNextCheck\<close>. The store and
  the broker are taken to answer their calls, here and in \<open>startAllMonitors\<close>.
\<close>

datatype job_result = Skipped | Checked nat

definition processMonitorJob ::
  "monitor list \<Rightarrow> (monitor \<Rightarrow> error option) \<Rightarrow> nat \<Rightarrow> job \<Rightarrow> queue \<Rightarrow> (error + job_result) \<times> queue" where
  "processMonitorJob rows beat t j q =
     (case findOne_active rows (monitorId j) of
        None \<Rightarrow> (Inr Skipped, q)
      | Some m \<Rightarrow>
          (case beat m of
             Some e \<Rightarrow> (Inl e, q)
           | None \<Rightarrow> (Inr (Checked (monitorId j)), scheduleNextCheck m t q)))"

subsection \<open>The worker around the handler\<close>

text \<open>
  What the queue library does with a job, under the options the constructor sets
  (\<open>attempts: 3\<close>, \<open>backoff: { type: "exponential", delay: 2000 }\<close>): the worker moves a
  waiting or delayed job to active and calls the handler; a handler that returns completes
  the job; a handler that throws sends the job back to delayed, with the backoff delay
  \<open>2 ^ (attemptsMade - 1) * delay\<close>, until \<open>attempts\<close> attempts are made, and then fails it.
  Only a job that is active is completed, retried or failed.

  The three steps are separate. The handler is handed the job the worker has taken and
  from then on runs on its own: it is \<open>processMonitorJob\<close> on the queue as it is when the
  handler gets there, whatever has become of its job meanwhile, and its job is still
  active while it runs. The library settles the job only after the handler has returned
  or thrown.
\<close>

definition update_job :: "string \<Rightarrow> (job \<Rightarrow> job) \<Rightarrow> queue \<Rightarrow> queue" where
  "update_job jid f q = q\<lparr>jobs := map (\<lambda>j. if jobId j = jid then f j else j) (jobs q)\<rparr>"

definition worker_take :: "string \<Rightarrow> queue \<Rightarrow> queue" where
  "worker_take jid q =
     update_job jid (\<lambda>j. if jstate j = Waiting \<or> jstate j = Delayed then j\<lparr>jstate := Active\<rparr> else j) q"

definition backoff :: "job_options \<Rightarrow> nat \<Rightarrow> nat" where
  "backoff opts n =
     (if backoff_exponential opts then 2 ^ (n - 1) * backoff_delay opts else backoff_delay opts)"

definition worker_settle :: "job_options \<Rightarrow> string \<Rightarrow> (error + job_result) \<Rightarrow> queue \<Rightarrow> queue" where
  "worker_settle opts jid r q =
     update_job jid
       (\<lambda>j. let n = Suc (attemptsMade j) in
          if jstate j \<noteq> Active then j
          else
            (case r of
               Inr _ \<Rightarrow> j\<lparr>attemptsMade := n, jstate := Completed\<rparr>
             | Inl _ \<Rightarrow>
                 if n < attempts opts
                 then j\<lparr>attemptsMade := n, delay := real (backoff opts n), jstate := Delayed\<rparr>
                 else j\<lparr>attemptsMade := n, jstate := Failed\<rparr>)) q"

text \<open>The job object the worker hands to the handler: the active job of that id.\<close>

definition taken_job :: "string \<Rightarrow> queue \<Rightarrow> job option" where
  "taken_job jid q = find (\<lambda>j. jobId j = jid \<and> jstate j = Active) (jobs q)"

text \<open>
  One attempt with nothing happening in between: the job is taken, the handler runs on
  the job it is handed, the job is settled with what the handler returned or threw.
\<close>

definition worker_attempt ::
  "queue_manager \<Rightarrow> monitor list \<Rightarrow> (monitor \<Rightarrow> error option) \<Rightarrow> nat \<Rightarrow> string \<Rightarrow> queue \<Rightarrow> queue" where
  "worker_attempt qm rows beat t jid q =
     (let q1 = worker_take jid q in
      case taken_job jid q1 of
        None \<Rightarrow> q1
      | Some j \<Rightarrow>
          (case processMonitorJob rows beat t j q1 of
             (r, q2) \<Rightarrow> worker_settle (defaultJobOptions qm) jid r q2))"

text \<open>
  One job followed through its attempts: each element of the list is one attempt, with
  the outcome of the check and the clock reading of that attempt. The job is taken and
  run while it is still waiting or delayed.
\<close>

fun run_attempts ::
  "queue_manager \<Rightarrow> monitor list \<Rightarrow> ((monitor \<Rightarrow> error option) \<times> nat) list \<Rightarrow> string \<Rightarrow> queue \<Rightarrow> queue" where
  "run_attempts qm rows [] jid q = q"
| "run_attempts qm rows ((beat, t) # rest) jid q =
     (if jid \<in> set (map jobId (getJobs_pending q))
      then run_attempts qm rows rest jid (worker_attempt qm rows beat t jid q)
      else q)"

section \<open>QueueIntegration\<close>

record integration =
  queueManager :: "queue_manager option"
  isQueueMode :: bool
  isInitialized :: bool

text \<open>The constructor; the argument is \<open>process.env.ENABLE_QUEUE_MODE === "true"\<close>.\<close>

definition new_QueueIntegration :: "bool \<Rightarrow> integration" where
  "new_QueueIntegration enabled =
     \<lparr>queueManager = None, isQueueMode = enabled, isInitialized = False\<rparr>"

text \<open>
  The process: the integration object, the queue in the broker, the server's
  \<open>monitorList\<close> (keyed by monitor id) and the monitors whose \<open>start(io)\<close> has set a local
  timer.
\<close>

record system =
  integ :: integration
  broker :: queue
  monitorList :: "(nat \<times> monitor) list"
  timers :: "nat list"

text \<open>
  What the outside answers during one call: whether \<open>new QueueManager()\<close> returns or
  throws, the rows of the store, the values of \<open>Math.random()\<close> and \<open>Date.now()\<close>, and
  whether \<open>monitor.start(io)\<close> throws.
\<close>

record world =
  w_ctor :: "error + queue_manager"
  w_rows :: "monitor list"
  w_random :: "nat \<Rightarrow> real"
  w_now :: "nat \<Rightarrow> nat"
  w_start :: "monitor \<Rightarrow> error option"

text \<open>What a call lets the outside see: the path it took, and what it returned or threw.\<close>

datatype path = ViaQueue | ViaTraditional

datatype event =
    Constructing
  | StartedAll path
  | Started nat path
  | Stopped nat path
  | Stats string
  | Raised error

definition uses_queue :: "integration \<Rightarrow> bool" where
  "uses_queue i = (isQueueMode i \<and> queueManager i \<noteq> None)"

definition initialize :: "world \<Rightarrow> system \<Rightarrow> event list \<times> system" where
  "initialize w s =
     (if isQueueMode (integ s) \<and> \<not> isInitialized (integ s) then
        (case w_ctor w of
           Inr qm \<Rightarrow>
             ([Constructing],
              s\<lparr>integ := (integ s)\<lparr>queueManager := Some qm, isInitialized := True\<rparr>\<rparr>)
         | Inl e \<Rightarrow>
             ([Constructing], s\<lparr>integ := (integ s)\<lparr>isQueueMode := False\<rparr>\<rparr>))
      else ([], s))"

definition startMonitorsTraditional :: "world \<Rightarrow> system \<Rightarrow> system" where
  "startMonitorsTraditional w s =
     (let list = find_active (w_rows w) in
      s\<lparr>monitorList := fold (\<lambda>m. AList.update (mon_id m) m) list (monitorList s),
        timers := timers s @ map mon_id (filter (\<lambda>m. w_start w m = None) list)\<rparr>)"

definition startAllMonitors :: "world \<Rightarrow> system \<Rightarrow> event list \<times> system" where
  "startAllMonitors w s =
     (case initialize w s of
        (evs, s1) \<Rightarrow>
          if uses_queue (integ s1)
          then (evs @ [StartedAll ViaQueue],
                s1\<lparr>broker := qm_startAllMonitors (w_rows w) (w_random w) (w_now w) (broker s1)\<rparr>)
          else (evs @ [StartedAll ViaTraditional], startMonitorsTraditional w s1))"

definition startMonitor :: "world \<Rightarrow> nat \<Rightarrow> system \<Rightarrow> event list \<times> system" where
  "startMonitor w i s =
     (if uses_queue (integ s)
      then ([Started i ViaQueue],
            s\<lparr>broker := queue_add (job_name_of i) i 0 None (w_now w 0) (broker s)\<rparr>)
      else
        (case findOne (w_rows w) i of
           None \<Rightarrow> ([Started i ViaTraditional], s)
         | Some m \<Rightarrow>
             (case w_start w m of
                Some e \<Rightarrow> ([Started i ViaTraditional, Raised e], s)
              | None \<Rightarrow> ([Started i ViaTraditional], s\<lparr>timers := timers s @ [i]\<rparr>))))"

definition stopMonitor :: "nat \<Rightarrow> system \<Rightarrow> event list \<times> system" where
  "stopMonitor i s =
     (if uses_queue (integ s)
      then ([Stopped i ViaQueue], s\<lparr>broker := qm_stopMonitor i (broker s)\<rparr>)
      else
        (case map_of (monitorList s) i of
           None \<Rightarrow> ([Stopped i ViaTraditional], s)
         | Some m \<Rightarrow>
             ([Stopped i ViaTraditional],
              s\<lparr>monitorList := AList.delete i (monitorList s), timers := removeAll i (timers s)\<rparr>)))"

text \<open>
  \<open>getStats()\<close>: \<open>{ mode: "queue", redis: true, waiting, active, completed, failed }\<close> or
  \<open>{ mode: "traditional", redis: false, activeMonitors }\<close>.
\<close>

datatype stats =
    QueueStats "job list" "job list" "job list" "job list"
  | TraditionalStats nat

fun mode :: "stats \<Rightarrow> string" where
  "mode (QueueStats w a c f) = ''queue''"
| "mode (TraditionalStats n) = ''traditional''"

fun redis :: "stats \<Rightarrow> bool" where
  "redis (QueueStats w a c f) = True"
| "redis (TraditionalStats n) = False"

definition jobs_in :: "job_state \<Rightarrow> queue \<Rightarrow> job list" where
  "jobs_in st q = filter (\<lambda>j. jstate j = st) (jobs q)"

definition getStats :: "system \<Rightarrow> stats" where
  "getStats s =
     (if uses_queue (integ s)
      then QueueStats (jobs_in Waiting (broker s)) (jobs_in Active (broker s))
             (jobs_in Completed (broker s)) (jobs_in Failed (broker s))
      else TraditionalStats (length (monitorList s)))"

text \<open>The calls the rest of the application makes, and a run of them.\<close>

datatype call = Initialize | StartAllMonitors | StartMonitor nat | StopMonitor nat | GetStats

fun exec :: "world \<Rightarrow> call \<Rightarrow> system \<Rightarrow> event list \<times> system" where
  "exec w Initialize s = initialize w s"
| "exec w StartAllMonitors s = startAllMonitors w s"
| "exec w (StartMonitor i) s = startMonitor w i s"
| "exec w (StopMonitor i) s = stopMonitor i s"
| "exec w GetStats s = ([Stats (mode (getStats s))], s)"

fun run :: "(world \<times> call) list \<Rightarrow> system \<Rightarrow> event list \<times> system" where
  "run [] s = ([], s)"
| "run ((w, c) # cs) s =
     (case exec w c s of
        (evs, s1) \<Rightarrow> (case run cs s1 of (evs', s2) \<Rightarrow> (evs @ evs', s2)))"

text \<open>An event of the traditional path: no construction, no use of the queue.\<close>

fun traditional_event :: "event \<Rightarrow> bool" where
  "traditional_event Constructing = False"
| "traditional_event (StartedAll p) = (p = ViaTraditional)"
| "traditional_event (Started i p) = (p = ViaTraditional)"
| "traditional_event (Stopped i p) = (p = ViaTraditional)"
| "traditional_event (Stats m) = (m = ''traditional'')"
| "traditional_event (Raised e) = True"

section \<open>The browser check\<close>

subsection \<open>The shared browser\<close>

text \<open>
  A browser handle is either a process launched by \<open>chromium.launch\<close> (with its
  executable path, \<open>None\<close> for Playwright's own Chromium) or a connection made by
  \<open>chromium.connect(url)\<close>. The number tells one launch or connection from the next.
\<close>

datatype browser = Launched "string option" nat | Connected string nat

text \<open>
  The state of the module as the check touches it: the module variable \<open>browser\<close> and
  the number of browsing contexts that are open.
\<close>

record chrome =
  shared :: "browser option"
  open_contexts :: nat

text \<open>The response of a navigation: \<open>res.status()\<close> and \<open>res.request().timing().responseEnd\<close>.\<close>

record response =
  status_code :: nat
  responseEnd :: real

text \<open>
  What the outside answers during one check. An \<open>error option\<close> is the outcome of a call
  whose value the check does not use: \<open>None\<close> when it returns, \<open>Some e\<close> when it throws.
  \<open>p_launch\<close> stands for reading the setting, \<open>prepareChromeExecutable\<close> and
  \<open>chromium.launch\<close> together; \<open>p_protocol\<close> is \<open>new URL(s).protocol\<close>; \<open>p_goto\<close> is
  \<open>page.goto\<close>, which gives the response of the navigation or null (\<open>None\<close>); \<open>p_video\<close>
  tells whether \<open>page.video()\<close> gives a video.
\<close>

record page_world =
  p_isConnected :: "browser \<Rightarrow> bool"
  p_launch :: "error + (string option \<times> nat)"
  p_remote_get :: "nat \<Rightarrow> nat \<Rightarrow> error + string"
  p_connect :: "string \<Rightarrow> error + nat"
  p_protocol :: "string \<Rightarrow> error + string"
  p_newContext :: "error option"
  p_newPage :: "error option"
  p_goto :: "string \<Rightarrow> error + response option"
  p_waitForTimeout :: "error option"
  p_screenshot :: "error option"
  p_video :: bool
  p_pageClose :: "error option"
  p_contextClose :: "error option"

text \<open>
  What stays the same from one check to the next: \<open>jwt.sign(payload, secret)\<close>, which for
  a payload that is not an object adds no timestamp, so that the token is a function of
  the payload and the secret; \<open>server.jwtSecret\<close>; \<open>Database.screenshotDir\<close> and
  \<open>Database.videoDir\<close>.
\<close>

record config =
  jwt_sign :: "nat \<Rightarrow> string \<Rightarrow> string"
  jwtSecret :: string
  screenshotDir :: string
  videoDir :: string

text \<open>The calls a check makes on the browser, in the order it makes them.\<close>

datatype action =
    Acquire browser
  | NewContext browser
  | NewPage
  | Goto string nat string
  | WaitForTimeout nat
  | Screenshot string
  | PageClose
  | SaveAs string
  | ContextClose

datatype beat_status = DOWN | UP | PENDING | MAINTENANCE

datatype beat_msg = Text string | Number nat

record heartbeat =
  hb_status :: beat_status
  hb_msg :: beat_msg
  hb_ping :: "real option"

text \<open>What one call of \<open>check\<close> gives: what it returned or threw, what it did, and the state after.\<close>

record outcome =
  ret :: "error + heartbeat"
  did :: "action list"
  final :: chrome

text \<open>\<open>getBrowser()\<close> and \<open>getRemoteBrowser(remoteBrowserID, userId)\<close>; both assign the module variable.\<close>

definition launch_shared :: "page_world \<Rightarrow> browser option \<Rightarrow> (error + browser) \<times> browser option" where
  "launch_shared w b =
     (case p_launch w of
        Inl e \<Rightarrow> (Inl e, b)
      | Inr (path, n) \<Rightarrow> (Inr (Launched path n), Some (Launched path n)))"

definition getBrowser :: "page_world \<Rightarrow> browser option \<Rightarrow> (error + browser) \<times> browser option" where
  "getBrowser w b =
     (case b of
        None \<Rightarrow> launch_shared w b
      | Some x \<Rightarrow> if p_isConnected w x then (Inr x, b) else launch_shared w b)"

definition getRemoteBrowser ::
  "page_world \<Rightarrow> nat \<Rightarrow> nat \<Rightarrow> browser option \<Rightarrow> (error + browser) \<times> browser option" where
  "getRemoteBrowser w remoteBrowserID userId b =
     (case p_remote_get w remoteBrowserID userId of
        Inl e \<Rightarrow> (Inl e, b)
      | Inr u \<Rightarrow>
          (case p_connect w u of
             Inl e \<Rightarrow> (Inl e, b)
           | Inr n \<Rightarrow> (Inr (Connected u n), Some (Connected u n))))"

subsection \<open>The check\<close>

text \<open>\<open>path.join(dir, file)\<close> for a directory and a file name without separators.\<close>

definition path_join :: "string \<Rightarrow> string \<Rightarrow> string" where
  "path_join dir file = dir @ ''/'' @ file"

definition filename_of :: "config \<Rightarrow> monitor \<Rightarrow> string" where
  "filename_of cfg m = jwt_sign cfg (mon_id m) (jwtSecret cfg)"

definition screenshotPath :: "config \<Rightarrow> monitor \<Rightarrow> string" where
  "screenshotPath cfg m = path_join (screenshotDir cfg) (filename_of cfg m @ ''.png'')"

definition videoPath :: "config \<Rightarrow> monitor \<Rightarrow> string" where
  "videoPath cfg m = path_join (videoDir cfg) (filename_of cfg m @ ''.webm'')"

definition testUrl :: string where
  "testUrl = ''https://example.com''"

text \<open>
  The result, from the response of the navigation: \<open>res.status()\<close> on a null response is
  a type error.
\<close>

definition null_response :: error where
  "null_response = Error ''TypeError: Cannot read properties of null''"

definition derive_result :: "heartbeat \<Rightarrow> response option \<Rightarrow> error + heartbeat" where
  "derive_result hb res =
     (case res of
        None \<Rightarrow> Inl null_response
      | Some r \<Rightarrow>
          if 200 \<le> status_code r \<and> status_code r < 400
          then Inr (hb\<lparr>hb_status := UP, hb_msg := Number (status_code r),
                     hb_ping := Some (responseEnd r)\<rparr>)
          else Inl (Error (dec (status_code r))))"

text \<open>
  The end of the check: the context is closed, then the status of the response decides.
  \<open>acts\<close> are the calls made so far.
\<close>

definition check_finish ::
  "page_world \<Rightarrow> heartbeat \<Rightarrow> response option \<Rightarrow> action list \<Rightarrow> chrome \<Rightarrow> outcome" where
  "check_finish w hb res acts st =
     (case p_contextClose w of
        Some e \<Rightarrow> \<lparr>ret = Inl e, did = acts @ [ContextClose], final = st\<rparr>
      | None \<Rightarrow>
          \<lparr>ret = derive_result hb res,
           did = acts @ [ContextClose],
           final = st\<lparr>open_contexts := open_contexts st - 1\<rparr>\<rparr>)"

text \<open>
  Saving the video, inside \<open>try\<close>/\<open>catch\<close>: an error of \<open>page.close()\<close> or of
  \<open>video.saveAs\<close> is logged and the check goes on, so the outcome of \<open>saveAs\<close> changes
  nothing. The list is the calls made.
\<close>

definition save_video :: "page_world \<Rightarrow> string \<Rightarrow> action list" where
  "save_video w vpath =
     (if vpath \<noteq> [] then
        (if p_video w then
           (case p_pageClose w of
              Some e \<Rightarrow> [PageClose]
            | None \<Rightarrow> [PageClose, SaveAs vpath])
         else [])
      else [])"

text \<open>From the new context to the screenshot: the first call that throws ends the check.\<close>

definition check_page ::
  "page_world \<Rightarrow> config \<Rightarrow> monitor \<Rightarrow> heartbeat \<Rightarrow> browser \<Rightarrow> action list \<Rightarrow> chrome \<Rightarrow> outcome" where
  "check_page w cfg m hb b acts st =
     (case p_newContext w of
        Some e \<Rightarrow> \<lparr>ret = Inl e, did = acts @ [NewContext b], final = st\<rparr>
      | None \<Rightarrow>
          (let st1 = st\<lparr>open_contexts := Suc (open_contexts st)\<rparr>;
               a1 = acts @ [NewContext b, NewPage]
           in case p_newPage w of
                Some e \<Rightarrow> \<lparr>ret = Inl e, did = a1, final = st1\<rparr>
              | None \<Rightarrow>
                  (let a2 = a1 @ [Goto testUrl 30000 ''networkidle'']
                   in case p_goto w testUrl of
                        Inl e \<Rightarrow> \<lparr>ret = Inl e, did = a2, final = st1\<rparr>
                      | Inr res \<Rightarrow>
                          (let a3 = a2 @ [WaitForTimeout 5000]
                           in case p_waitForTimeout w of
                                Some e \<Rightarrow> \<lparr>ret = Inl e, did = a3, final = st1\<rparr>
                              | None \<Rightarrow>
                                  (let a4 = a3 @ [Screenshot (screenshotPath cfg m)]
                                   in case p_screenshot w of
                                        Some e \<Rightarrow> \<lparr>ret = Inl e, did = a4, final = st1\<rparr>
                                      | None \<Rightarrow>
                                          check_finish w hb res
                                            (a4 @ save_video w (videoPath cfg m)) st1)))))"

text \<open>
  \<open>check(monitor, heartbeat, server)\<close>. \<open>monitor.remote_browser\<close> is tested for truth: a
  null field and \<open>0\<close> take the local browser.
\<close>

definition invalid_protocol :: error where
  "invalid_protocol = Error ''Invalid url protocol, only http and https are allowed.''"

definition acquire :: "page_world \<Rightarrow> monitor \<Rightarrow> browser option \<Rightarrow> (error + browser) \<times> browser option" where
  "acquire w m b =
     (case remote_browser m of
        None \<Rightarrow> getBrowser w b
      | Some r \<Rightarrow> if r = 0 then getBrowser w b else getRemoteBrowser w r (user_id m) b)"

definition check :: "page_world \<Rightarrow> config \<Rightarrow> monitor \<Rightarrow> heartbeat \<Rightarrow> chrome \<Rightarrow> outcome" where
  "check w cfg m hb st =
     (case acquire w m (shared st) of
        (Inl e, b') \<Rightarrow> \<lparr>ret = Inl e, did = [], final = st\<lparr>shared := b'\<rparr>\<rparr>
      | (Inr b, b') \<Rightarrow>
          (let st1 = st\<lparr>shared := b'\<rparr> in
           case p_protocol w (url m) of
             Inl e \<Rightarrow> \<lparr>ret = Inl e, did = [Acquire b], final = st1\<rparr>
           | Inr proto \<Rightarrow>
               if proto \<noteq> ''http:'' \<and> proto \<noteq> ''https:''
               then \<lparr>ret = Inl invalid_protocol, did = [Acquire b], final = st1\<rparr>
               else check_page w cfg m hb b [Acquire b] st1))"

section \<open>Concrete inputs\<close>

text \<open>
  Inputs at which the functions above are evaluated. \<open>example_sign\<close> and
  \<open>example_protocol\<close> stand in for the token and URL libraries: the token holds the
  payload, the protocol is the text up to the first colon.
\<close>

definition example_monitor :: "nat \<Rightarrow> string \<Rightarrow> nat option \<Rightarrow> monitor" where
  "example_monitor i u r =
     \<lparr>mon_id = i, mon_name = ''m'', interval = Some 60, active = True, url = u,
      remote_browser = r, user_id = 1\<rparr>"

definition example_rows :: "monitor list" where
  "example_rows =
     [example_monitor 1 ''https://a.example/'' None,
      (example_monitor 2 ''https://b.example/'' None)\<lparr>interval := Some 30\<rparr>]"

definition example_world :: "(error + queue_manager) \<Rightarrow> world" where
  "example_world c =
     \<lparr>w_ctor = c, w_rows = example_rows, w_random = (\<lambda>k. 1 / 2), w_now = (\<lambda>k. 1000 + k),
      w_start = (\<lambda>m. None)\<rparr>"

definition fresh_system :: "bool \<Rightarrow> system" where
  "fresh_system enabled =
     \<lparr>integ = new_QueueIntegration enabled, broker = empty_queue, monitorList = [], timers = []\<rparr>"

definition example_sign :: "nat \<Rightarrow> string \<Rightarrow> string" where
  "example_sign payload secret = ''eyJ.'' @ dec payload @ ''.'' @ secret"

definition example_config :: config where
  "example_config =
     \<lparr>jwt_sign = example_sign, jwtSecret = ''s3cret'', screenshotDir = ''data/screenshots'',
      videoDir = ''data/videos''\<rparr>"

definition example_protocol :: "string \<Rightarrow> error + string" where
  "example_protocol s =
     (if CHR '':'' \<in> set s then Inr (takeWhile (\<lambda>c. c \<noteq> CHR '':'') s @ '':'')
      else Inl (Error ''Invalid URL''))"

definition example_page :: "(string \<Rightarrow> error + response option) \<Rightarrow> page_world" where
  "example_page goto =
     \<lparr>p_isConnected = (\<lambda>b. True),
      p_launch = Inr (Some ''/usr/bin/chromium'', 1),
      p_remote_get = (\<lambda>r u. Inr ''ws://browsers.example:3000''),
      p_connect = (\<lambda>u. Inr 7),
      p_protocol = example_protocol,
      p_newContext = None, p_newPage = None, p_goto = goto, p_waitForTimeout = None,
      p_screenshot = None, p_video = True, p_pageClose = None, p_contextClose = None\<rparr>"

definition example_heartbeat :: heartbeat where
  "example_heartbeat = \<lparr>hb_status = DOWN, hb_msg = Text [], hb_ping = None\<rparr>"

definition idle_chrome :: chrome where
  "idle_chrome = \<lparr>shared = None, open_contexts = 0\<rparr>"

text \<open>A navigation that answers every URL with the same status, and one that times out.\<close>

definition answers :: "nat \<Rightarrow> string \<Rightarrow> error + response option" where
  "answers code u = Inr (Some \<lparr>status_code = code, responseEnd = 25 / 2\<rparr>)"

definition times_out :: "string \<Rightarrow> error + response option" where
  "times_out u = Inl (Error ''Timeout 30000ms exceeded.'')"

text \<open>A navigation that reaches \<open>https://example.com\<close> only.\<close>

definition only_example_com :: "string \<Rightarrow> error + response option" where
  "only_example_com u =
     (if u = ''https://example.com'' then Inr (Some \<lparr>status_code = 200, responseEnd = 25 / 2\<rparr>)
      else Inl (Error ''net::ERR_CONNECTION_REFUSED''))"

text \<open>
  The process in queue mode after a successful \<open>initialize()\<close>, the world in which the
  constructor succeeds, a job being executed, and a check that always throws.
\<close>

definition broker_up :: world where
  "broker_up = example_world (Inr (new_QueueManager None))"

definition queue_system :: system where
  "queue_system = snd (initialize broker_up (fresh_system True))"

definition example_job :: "nat \<Rightarrow> job" where
  "example_job i = (new_job (job_id_of i 1000) (job_name_of i) i 0 1000)\<lparr>jstate := Active\<rparr>"

definition always_throws :: "monitor \<Rightarrow> error option" where
  "always_throws m = Some (Error ''performCheck failed'')"

definition returns :: "monitor \<Rightarrow> error option" where
  "returns m = None"

text \<open>A job of monitor \<open>i\<close> that waits for its delay to pass.\<close>

definition pending_job :: "nat \<Rightarrow> job" where
  "pending_job i = new_job (job_id_of i 1000) (job_name_of i) i 5000 1000"

text \<open>
  The process after \<open>startAllMonitors()\<close> in queue mode, and the job of monitor 1 in its
  queue as the worker hands it to the handler.
\<close>

definition started_system :: system where
  "started_system = snd (startAllMonitors broker_up queue_system)"

definition taken_first :: job where
  "taken_first = (new_job (job_id_of 1 1000) (job_name_of 1) 1 5000 1002)\<lparr>jstate := Active\<rparr>"

section \<open>Predicates of the statements\<close>

text \<open>An action that only takes hold of a browser.\<close>

fun is_acquire :: "action \<Rightarrow> bool" where
  "is_acquire (Acquire b) = True"
| "is_acquire a = False"

text \<open>
  Every call between opening the context and closing it returns: \<open>newContext\<close>,
  \<open>newPage\<close>, the navigation, the wait, the screenshot and \<open>context.close()\<close>.
\<close>

definition page_steps_return :: "page_world \<Rightarrow> bool" where
  "page_steps_return w =
     (p_newContext w = None \<and> p_newPage w = None \<and> \<not> isl (p_goto w testUrl)
      \<and> p_waitForTimeout w = None \<and> p_screenshot w = None \<and> p_contextClose w = None)"

text \<open>An action that writes an artifact writes it to the monitor's screenshot or video path.\<close>

fun artifact_of :: "config \<Rightarrow> monitor \<Rightarrow> action \<Rightarrow> bool" where
  "artifact_of cfg m (Screenshot p) = (p = screenshotPath cfg m)"
| "artifact_of cfg m (SaveAs p) = (p = videoPath cfg m)"
| "artifact_of cfg m a = True"

text \<open>The job after an attempt that threw: delayed again with its backoff, or failed.\<close>

definition after_failure :: "job_options \<Rightarrow> job \<Rightarrow> job" where
  "after_failure opts j =
     (if Suc (attemptsMade j) < attempts opts
      then j\<lparr>attemptsMade := Suc (attemptsMade j),
             delay := real (backoff opts (Suc (attemptsMade j))), jstate := Delayed\<rparr>
      else j\<lparr>attemptsMade := Suc (attemptsMade j), jstate := Failed\<rparr>)"

text \<open>The job \<open>scheduleNextCheck\<close> adds for a monitor at the clock reading \<open>t\<close>.\<close>

definition next_job :: "monitor \<Rightarrow> nat \<Rightarrow> job" where
  "next_job m t =
     \<lparr>jobId = job_id_of (mon_id m) t, job_name = job_name_of (mon_id m), monitorId = mon_id m,
      delay = real_of_int (interval_or_default m * 1000), timestamp = t, attemptsMade = 0,
      jstate = (if interval_or_default m > 0 then Delayed else Waiting)\<rparr>"

section \<open>Properties\<close>

subsection \<open>Decimal rendering\<close>

lemma digit_inj: "x < 10 \<Longrightarrow> y < 10 \<Longrightarrow> digit x = digit y \<Longrightarrow> x = y"
proof -
  assume a: "x < 10" "y < 10" "digit x = digit y"
  have d: "distinct ''0123456789''" by simp
  have l: "length ''0123456789'' = 10" by simp
  from a d l show ?thesis unfolding digit_def
    by (metis nth_eq_iff_index_eq)
qed

lemma dec_nonempty: "dec n \<noteq> []"
  by (subst dec.simps) simp

lemma dec_inj: "dec a = dec b \<Longrightarrow> a = b"
proof (induction a arbitrary: b rule: dec.induct)
  case (1 n)
  show ?case
  proof (cases "n < 10")
    case True
    show ?thesis
    proof (cases "b < 10")
      case True
      with \<open>n < 10\<close> "1.prems" show ?thesis
        by (simp add: dec.simps[of n] dec.simps[of b] digit_inj)
    next
      case False
      with \<open>n < 10\<close> "1.prems" show ?thesis
        using dec_nonempty[of "b div 10"]
        by (simp add: dec.simps[of n] dec.simps[of b])
    qed
  next
    case False
    show ?thesis
    proof (cases "b < 10")
      case True
      with False "1.prems" show ?thesis
        using dec_nonempty[of "n div 10"]
        by (simp add: dec.simps[of n] dec.simps[of b])
    next
      case bf: False
      from False bf "1.prems"
      have e: "dec (n div 10) = dec (b div 10)" "digit (n mod 10) = digit (b mod 10)"
        by (simp_all add: dec.simps[of n] dec.simps[of b])
      from "1.IH"[OF False e(1)] have "n div 10 = b div 10" .
      moreover from e(2) have "n mod 10 = b mod 10" by (simp add: digit_inj)
      ultimately show ?thesis by (metis div_mult_mod_eq)
    qed
  qed
qed

lemma digit_not_dash: "n < 10 \<Longrightarrow> digit n \<noteq> CHR ''-''"
proof -
  assume "n < 10"
  then have "digit n \<in> set ''0123456789''"
    unfolding digit_def by (simp del: set_simps list.set)
  then show ?thesis by auto
qed

lemma dec_no_dash: "CHR ''-'' \<notin> set (dec n)"
proof (induction n rule: dec.induct)
  case (1 n)
  show ?case
  proof (cases "n < 10")
    case True
    then show ?thesis using digit_not_dash[of n] by (auto simp: dec.simps[of n])
  next
    case False
    with 1 show ?thesis using digit_not_dash[of "n mod 10"] by (auto simp: dec.simps[of n])
  qed
qed

lemma split_at_sep:
  "xs @ c # ys = xs' @ c # ys' \<Longrightarrow> c \<notin> set xs \<Longrightarrow> c \<notin> set xs' \<Longrightarrow> xs = xs' \<and> ys = ys'"
proof (induction xs arbitrary: xs')
  case Nil
  then show ?case by (cases xs') auto
next
  case (Cons a xs)
  then show ?case by (cases xs') auto
qed

lemma job_id_of_inj: "job_id_of i t = job_id_of i' t' \<Longrightarrow> i = i' \<and> t = t'"
proof -
  assume "job_id_of i t = job_id_of i' t'"
  then have "dec i @ CHR ''-'' # dec t = dec i' @ CHR ''-'' # dec t'"
    by (simp add: job_id_of_def)
  from split_at_sep[OF this dec_no_dash dec_no_dash] show ?thesis
    by (auto dest: dec_inj)
qed

subsection \<open>The fallback to the traditional mode\<close>

lemma exec_traditional:
  assumes "\<not> isQueueMode (integ s)"
  shows "integ (snd (exec w c s)) = integ s \<and> broker (snd (exec w c s)) = broker s
         \<and> list_all traditional_event (fst (exec w c s))"
  using assms
  by (cases c)
     (auto simp: initialize_def startAllMonitors_def startMonitor_def stopMonitor_def
        startMonitorsTraditional_def uses_queue_def getStats_def Let_def
        split: option.splits sum.splits)

lemma run_traditional:
  assumes "\<not> isQueueMode (integ s)"
  shows "integ (snd (run cs s)) = integ s \<and> broker (snd (run cs s)) = broker s
         \<and> list_all traditional_event (fst (run cs s))"
  using assms
proof (induction cs arbitrary: s)
  case Nil
  then show ?case by simp
next
  case (Cons a cs)
  obtain w c where a: "a = (w, c)" by (cases a)
  obtain evs s1 where e: "exec w c s = (evs, s1)" by (cases "exec w c s")
  from exec_traditional[OF Cons.prems, of w c] e
  have s1: "integ s1 = integ s" "broker s1 = broker s" "list_all traditional_event evs" by auto
  then have "\<not> isQueueMode (integ s1)" using Cons.prems by simp
  from Cons.IH[OF this] s1 show ?case
    by (auto simp: a e split: prod.splits)
qed

text \<open>
  C3. When queue mode is enabled and \<open>new QueueManager()\<close> throws inside \<open>initialize()\<close>,
  the error is caught (the call returns, having tried the construction once) and queue
  mode is switched off. From then on, whatever calls follow and whatever the outside
  answers (a constructor that would now succeed included), no call constructs a queue
  manager again, every \<open>startAllMonitors\<close>, \<open>startMonitor\<close> and \<open>stopMonitor\<close> takes the
  traditional path, every \<open>getStats()\<close> reports the mode \<open>"traditional"\<close>, and the queue
  in the broker is left as it was.
\<close>

theorem fallback_is_permanent:
  assumes "isQueueMode (integ s)" and "\<not> isInitialized (integ s)" and "w_ctor w = Inl e"
  shows "fst (initialize w s) = [Constructing]
       \<and> \<not> isQueueMode (integ (snd (initialize w s)))
       \<and> list_all traditional_event (fst (run cs (snd (initialize w s))))
       \<and> \<not> uses_queue (integ (snd (run cs (snd (initialize w s)))))
       \<and> mode (getStats (snd (run cs (snd (initialize w s))))) = ''traditional''
       \<and> broker (snd (run cs (snd (initialize w s)))) = broker s"
proof -
  have i: "initialize w s = ([Constructing], s\<lparr>integ := (integ s)\<lparr>isQueueMode := False\<rparr>\<rparr>)"
    using assms by (simp add: initialize_def)
  let ?s1 = "snd (initialize w s)"
  have off: "\<not> isQueueMode (integ ?s1)" by (simp add: i)
  have b: "broker ?s1 = broker s" by (simp add: i)
  from run_traditional[OF off, of cs] off b show ?thesis
    by (simp add: i getStats_def uses_queue_def)
qed

theorem fallback_is_permanent_witness:
  "isQueueMode (integ (fresh_system True))
   \<and> \<not> isInitialized (integ (fresh_system True))
   \<and> w_ctor (example_world (Inl (Error ''ECONNREFUSED''))) = Inl (Error ''ECONNREFUSED'')
   \<and> fst (run [(example_world (Inr (new_QueueManager None)), StartAllMonitors),
               (example_world (Inr (new_QueueManager None)), StartMonitor 1),
               (example_world (Inr (new_QueueManager None)), GetStats)]
            (snd (initialize (example_world (Inl (Error ''ECONNREFUSED''))) (fresh_system True))))
       = [StartedAll ViaTraditional, Started 1 ViaTraditional, Stats ''traditional'']
   \<and> mode (getStats (snd (run [(example_world (Inr (new_QueueManager None)), StartAllMonitors),
               (example_world (Inr (new_QueueManager None)), StartMonitor 1),
               (example_world (Inr (new_QueueManager None)), GetStats)]
            (snd (initialize (example_world (Inl (Error ''ECONNREFUSED''))) (fresh_system True))))))
       = ''traditional''"
  using fallback_is_permanent [of "fresh_system True" "example_world (Inl (Error ''ECONNREFUSED''))"
      "Error ''ECONNREFUSED''"
      "[(example_world (Inr (new_QueueManager None)), StartAllMonitors),
        (example_world (Inr (new_QueueManager None)), StartMonitor 1),
        (example_world (Inr (new_QueueManager None)), GetStats)]"]
  by (simp add: fresh_system_def example_world_def new_QueueIntegration_def initialize_def
      startAllMonitors_def startMonitor_def uses_queue_def getStats_def findOne_def example_rows_def
      example_monitor_def startMonitorsTraditional_def find_active_def)

subsection \<open>The browsing context of a check\<close>

lemma check_finish_shared: "shared (final (check_finish w hb res acts st)) = shared st"
  by (simp add: check_finish_def split: option.splits)

lemma check_page_shared: "shared (final (check_page w cfg m hb b acts st)) = shared st"
  by (simp add: check_page_def check_finish_shared Let_def split: option.splits sum.splits)

lemma check_shared: "shared (final (check w cfg m hb st)) = snd (acquire w m (shared st))"
  by (simp add: check_def check_page_shared Let_def split: prod.splits sum.splits)

text \<open>
  C4, as the claim states it, fails: when the navigation times out, the check throws the
  timeout error with the context it opened still open, and \<open>context.close()\<close> is never
  called.
\<close>

theorem context_left_open_on_timeout:
  "ret (check (example_page times_out) example_config (example_monitor 1 ''https://a.example/'' None)
         example_heartbeat idle_chrome) = Inl (Error ''Timeout 30000ms exceeded.'')
   \<and> open_contexts (final (check (example_page times_out) example_config
         (example_monitor 1 ''https://a.example/'' None) example_heartbeat idle_chrome)) = 1
   \<and> ContextClose \<notin> set (did (check (example_page times_out) example_config
         (example_monitor 1 ''https://a.example/'' None) example_heartbeat idle_chrome))"
  by (simp add: check_def check_page_def acquire_def getBrowser_def launch_shared_def
      example_page_def example_monitor_def example_protocol_def idle_chrome_def times_out_def
      testUrl_def Let_def)

text \<open>
  C4, amended. On every execution of the check in which the calls between opening the
  context and closing it return (the navigation gives a response, whatever its status;
  saving the video may succeed or fail), closing the context is the last thing the check
  does before it derives its result: the number of open contexts is what it was before
  the check, and the result is the one derived from the response, the up heartbeat for a
  status in [200, 400) and the error carrying the status otherwise.
\<close>

theorem context_closed_when_steps_return:
  assumes "acquire w m (shared st) = (Inr b, b')"
    and "p_protocol w (url m) = Inr proto"
    and "proto = ''http:'' \<or> proto = ''https:''"
    and "page_steps_return w"
  shows "open_contexts (final (check w cfg m hb st)) = open_contexts st
       \<and> last (did (check w cfg m hb st)) = ContextClose
       \<and> ret (check w cfg m hb st) = derive_result hb (projr (p_goto w testUrl))"
proof -
  from assms(4) obtain res where g: "p_goto w testUrl = Inr res"
    by (cases "p_goto w testUrl") (auto simp: page_steps_return_def)
  from assms(4) have r: "p_newContext w = None" "p_newPage w = None" "p_waitForTimeout w = None"
    "p_screenshot w = None" "p_contextClose w = None"
    by (simp_all add: page_steps_return_def)
  have "check w cfg m hb st =
        check_finish w hb res
          ([Acquire b, NewContext b, NewPage, Goto testUrl 30000 ''networkidle'', WaitForTimeout 5000,
            Screenshot (screenshotPath cfg m)] @ save_video w (videoPath cfg m))
          (st\<lparr>shared := b', open_contexts := Suc (open_contexts st)\<rparr>)"
    using assms(1-3) g r by (auto simp: check_def check_page_def Let_def)
  then show ?thesis using g r by (simp add: check_finish_def)
qed

theorem context_closed_when_steps_return_witness:
  "acquire (example_page (answers 503)) (example_monitor 1 ''https://a.example/'' None) (shared idle_chrome)
     = (Inr (Launched (Some ''/usr/bin/chromium'') 1), Some (Launched (Some ''/usr/bin/chromium'') 1))
   \<and> p_protocol (example_page (answers 503)) (url (example_monitor 1 ''https://a.example/'' None))
       = Inr ''https:''
   \<and> page_steps_return (example_page (answers 503))
   \<and> open_contexts (final (check (example_page (answers 503)) example_config
         (example_monitor 1 ''https://a.example/'' None) example_heartbeat idle_chrome)) = 0
   \<and> last (did (check (example_page (answers 503)) example_config
         (example_monitor 1 ''https://a.example/'' None) example_heartbeat idle_chrome)) = ContextClose
   \<and> ret (check (example_page (answers 503)) example_config
         (example_monitor 1 ''https://a.example/'' None) example_heartbeat idle_chrome)
       = Inl (Error ''503'')"
proof -
  have a: "acquire (example_page (answers 503)) (example_monitor 1 ''https://a.example/'' None)
             (shared idle_chrome)
     = (Inr (Launched (Some ''/usr/bin/chromium'') 1), Some (Launched (Some ''/usr/bin/chromium'') 1))"
    by (simp add: acquire_def getBrowser_def launch_shared_def example_page_def example_monitor_def
        idle_chrome_def)
  have p: "p_protocol (example_page (answers 503)) (url (example_monitor 1 ''https://a.example/'' None))
             = Inr ''https:''"
    by (simp add: example_page_def example_monitor_def example_protocol_def)
  have s: "page_steps_return (example_page (answers 503))"
    by (simp add: page_steps_return_def example_page_def answers_def)
  have g: "derive_result example_heartbeat (projr (p_goto (example_page (answers 503)) testUrl))
             = Inl (Error (dec 503))"
    by (simp add: example_page_def answers_def derive_result_def)
  have d: "dec 503 = ''503''" by (simp add: dec.simps digit_def)
  from context_closed_when_steps_return [OF a p _ s, of example_config example_heartbeat] a p s g d
  show ?thesis
    by (simp add: idle_chrome_def)
qed

subsection \<open>The URL scheme\<close>

text \<open>
  C5, as the claim states it, fails: for a \<open>file:\<close> URL and no browser running yet, the
  check launches the shared browser (the module variable is set, the launch is the one
  thing the check did) and only then throws the protocol error.
\<close>

theorem browser_acquired_before_rejection:
  "shared idle_chrome = None
   \<and> ret (check (example_page (answers 200)) example_config
         (example_monitor 1 ''file:///etc/passwd'' None) example_heartbeat idle_chrome)
       = Inl invalid_protocol
   \<and> did (check (example_page (answers 200)) example_config
         (example_monitor 1 ''file:///etc/passwd'' None) example_heartbeat idle_chrome)
       = [Acquire (Launched (Some ''/usr/bin/chromium'') 1)]
   \<and> shared (final (check (example_page (answers 200)) example_config
         (example_monitor 1 ''file:///etc/passwd'' None) example_heartbeat idle_chrome))
       = Some (Launched (Some ''/usr/bin/chromium'') 1)"
  by (simp add: check_def acquire_def getBrowser_def launch_shared_def example_page_def
      example_monitor_def example_protocol_def idle_chrome_def Let_def)

text \<open>
  C5, amended. For every monitor whose URL has a protocol other than \<open>http:\<close> and
  \<open>https:\<close>, the check takes hold of the browser first and then throws. The module
  variable \<open>browser\<close> is left as the acquisition leaves it: with no browser held and no
  remote browser configured the shared browser is launched, with a remote browser
  configured the connection is made. When the acquisition returns a browser, that
  acquisition is the one thing the check has done and the error thrown is the protocol
  error; when the acquisition throws, the check has done nothing and throws that error. In
  either case no context and no page is opened and nothing is navigated to.
\<close>

theorem other_scheme_rejected_before_any_context:
  assumes "p_protocol w (url m) = Inr proto" and "proto \<noteq> ''http:''" and "proto \<noteq> ''https:''"
  shows "isl (ret (check w cfg m hb st))
       \<and> list_all is_acquire (did (check w cfg m hb st))
       \<and> open_contexts (final (check w cfg m hb st)) = open_contexts st
       \<and> shared (final (check w cfg m hb st)) = snd (acquire w m (shared st))
       \<and> (case fst (acquire w m (shared st)) of
            Inl e \<Rightarrow> ret (check w cfg m hb st) = Inl e \<and> did (check w cfg m hb st) = []
          | Inr b \<Rightarrow> ret (check w cfg m hb st) = Inl invalid_protocol
                     \<and> did (check w cfg m hb st) = [Acquire b])
       \<and> (remote_browser m = None \<and> shared st = None \<and> p_launch w = Inr (path, n) \<longrightarrow>
            did (check w cfg m hb st) = [Acquire (Launched path n)]
            \<and> shared (final (check w cfg m hb st)) = Some (Launched path n))
       \<and> (remote_browser m = Some r \<and> r \<noteq> 0 \<and> p_remote_get w r (user_id m) = Inr u
            \<and> p_connect w u = Inr c \<longrightarrow>
            did (check w cfg m hb st) = [Acquire (Connected u c)]
            \<and> shared (final (check w cfg m hb st)) = Some (Connected u c))"
proof -
  obtain x b' where a: "acquire w m (shared st) = (x, b')" by (cases "acquire w m (shared st)")
  have main: "isl (ret (check w cfg m hb st))
       \<and> list_all is_acquire (did (check w cfg m hb st))
       \<and> open_contexts (final (check w cfg m hb st)) = open_contexts st
       \<and> shared (final (check w cfg m hb st)) = snd (acquire w m (shared st))
       \<and> (case fst (acquire w m (shared st)) of
            Inl e \<Rightarrow> ret (check w cfg m hb st) = Inl e \<and> did (check w cfg m hb st) = []
          | Inr b \<Rightarrow> ret (check w cfg m hb st) = Inl invalid_protocol
                     \<and> did (check w cfg m hb st) = [Acquire b])"
    using assms a by (cases x) (simp_all add: check_def Let_def)
  have local: "remote_browser m = None \<and> shared st = None \<and> p_launch w = Inr (path, n) \<longrightarrow>
            acquire w m (shared st) = (Inr (Launched path n), Some (Launched path n))"
    by (simp add: acquire_def getBrowser_def launch_shared_def)
  have remote: "remote_browser m = Some r \<and> r \<noteq> 0 \<and> p_remote_get w r (user_id m) = Inr u
            \<and> p_connect w u = Inr c \<longrightarrow>
            acquire w m (shared st) = (Inr (Connected u c), Some (Connected u c))"
    by (simp add: acquire_def getRemoteBrowser_def)
  from main local remote show ?thesis by auto
qed

theorem other_scheme_rejected_before_any_context_witness:
  "p_protocol (example_page (answers 200)) (url (example_monitor 1 ''ftp://files.example/x'' None))
     = Inr ''ftp:''
   \<and> ''ftp:'' \<noteq> ''http:'' \<and> ''ftp:'' \<noteq> ''https:''
   \<and> remote_browser (example_monitor 1 ''ftp://files.example/x'' None) = None
   \<and> shared idle_chrome = None
   \<and> p_launch (example_page (answers 200)) = Inr (Some ''/usr/bin/chromium'', 1)
   \<and> ret (check (example_page (answers 200)) example_config
         (example_monitor 1 ''ftp://files.example/x'' None) example_heartbeat idle_chrome)
       = Inl invalid_protocol
   \<and> did (check (example_page (answers 200)) example_config
         (example_monitor 1 ''ftp://files.example/x'' None) example_heartbeat idle_chrome)
       = [Acquire (Launched (Some ''/usr/bin/chromium'') 1)]
   \<and> shared (final (check (example_page (answers 200)) example_config
         (example_monitor 1 ''ftp://files.example/x'' None) example_heartbeat idle_chrome))
       = Some (Launched (Some ''/usr/bin/chromium'') 1)
   \<and> open_contexts (final (check (example_page (answers 200)) example_config
         (example_monitor 1 ''ftp://files.example/x'' None) example_heartbeat idle_chrome)) = 0
   \<and> p_protocol (example_page (answers 200)) (url (example_monitor 2 ''file:///etc/passwd'' (Some 4)))
     = Inr ''file:''
   \<and> ''file:'' \<noteq> ''http:'' \<and> ''file:'' \<noteq> ''https:''
   \<and> remote_browser (example_monitor 2 ''file:///etc/passwd'' (Some 4)) = Some 4 \<and> (4::nat) \<noteq> 0
   \<and> p_remote_get (example_page (answers 200)) 4 (user_id (example_monitor 2 ''file:///etc/passwd'' (Some 4)))
       = Inr ''ws://browsers.example:3000''
   \<and> p_connect (example_page (answers 200)) ''ws://browsers.example:3000'' = Inr 7
   \<and> ret (check (example_page (answers 200)) example_config
         (example_monitor 2 ''file:///etc/passwd'' (Some 4)) example_heartbeat idle_chrome)
       = Inl invalid_protocol
   \<and> did (check (example_page (answers 200)) example_config
         (example_monitor 2 ''file:///etc/passwd'' (Some 4)) example_heartbeat idle_chrome)
       = [Acquire (Connected ''ws://browsers.example:3000'' 7)]
   \<and> shared (final (check (example_page (answers 200)) example_config
         (example_monitor 2 ''file:///etc/passwd'' (Some 4)) example_heartbeat idle_chrome))
       = Some (Connected ''ws://browsers.example:3000'' 7)"
proof -
  let ?w = "example_page (answers 200)"
  let ?m1 = "example_monitor 1 ''ftp://files.example/x'' None"
  let ?m2 = "example_monitor 2 ''file:///etc/passwd'' (Some 4)"
  have p1: "p_protocol ?w (url ?m1) = Inr ''ftp:''"
    by (simp add: example_page_def example_monitor_def example_protocol_def)
  have p2: "p_protocol ?w (url ?m2) = Inr ''file:''"
    by (simp add: example_page_def example_monitor_def example_protocol_def)
  have n1: "''ftp:'' \<noteq> ''http:''" "''ftp:'' \<noteq> ''https:''" by simp_all
  have n2: "''file:'' \<noteq> ''http:''" "''file:'' \<noteq> ''https:''" by simp_all
  have l: "remote_browser ?m1 = None" "shared idle_chrome = None"
    "p_launch ?w = Inr (Some ''/usr/bin/chromium'', 1)"
    by (simp_all add: example_monitor_def idle_chrome_def example_page_def)
  have r: "remote_browser ?m2 = Some 4" "(4::nat) \<noteq> 0"
    "p_remote_get ?w 4 (user_id ?m2) = Inr ''ws://browsers.example:3000''"
    "p_connect ?w ''ws://browsers.example:3000'' = Inr 7"
    by (simp_all add: example_monitor_def example_page_def)
  have a1: "acquire ?w ?m1 (shared idle_chrome)
              = (Inr (Launched (Some ''/usr/bin/chromium'') 1), Some (Launched (Some ''/usr/bin/chromium'') 1))"
    by (simp add: acquire_def getBrowser_def launch_shared_def example_monitor_def idle_chrome_def
        example_page_def)
  have a2: "acquire ?w ?m2 (shared idle_chrome)
              = (Inr (Connected ''ws://browsers.example:3000'' 7),
                 Some (Connected ''ws://browsers.example:3000'' 7))"
    by (simp add: acquire_def getRemoteBrowser_def example_monitor_def idle_chrome_def
        example_page_def)
  note t1 = other_scheme_rejected_before_any_context [OF p1 n1, where cfg = example_config
      and hb = example_heartbeat and st = idle_chrome and path = "Some ''/usr/bin/chromium''" and n = 1]
  note t2 = other_scheme_rejected_before_any_context [OF p2 n2, where cfg = example_config
      and hb = example_heartbeat and st = idle_chrome and r = 4 and u = "''ws://browsers.example:3000''"
      and c = 7]
  from t1 t2 p1 p2 l r a1 a2 show ?thesis by (simp add: idle_chrome_def)
qed

subsection \<open>The URL the check navigates to\<close>

text \<open>
  C6. The check does not navigate to the monitor's URL: where only \<open>https://example.com\<close>
  can be reached, a monitor of \<open>https://status.example.org/health\<close> is reported up, the one
  navigation of the check goes to \<open>https://example.com\<close>, and the monitor's URL is never
  asked for.
\<close>

theorem check_navigates_to_example_com:
  "ret (check (example_page only_example_com) example_config
         (example_monitor 1 ''https://status.example.org/health'' None) example_heartbeat idle_chrome)
     = Inr \<lparr>hb_status = UP, hb_msg = Number 200, hb_ping = Some (25 / 2)\<rparr>
   \<and> filter (\<lambda>a. case a of Goto u t c \<Rightarrow> True | _ \<Rightarrow> False)
        (did (check (example_page only_example_com) example_config
           (example_monitor 1 ''https://status.example.org/health'' None) example_heartbeat idle_chrome))
     = [Goto ''https://example.com'' 30000 ''networkidle'']
   \<and> only_example_com ''https://status.example.org/health'' = Inl (Error ''net::ERR_CONNECTION_REFUSED'')"
  by (simp add: check_def check_page_def check_finish_def derive_result_def save_video_def
      acquire_def getBrowser_def launch_shared_def example_page_def example_monitor_def
      example_protocol_def idle_chrome_def only_example_com_def example_heartbeat_def testUrl_def
      videoPath_def path_join_def Let_def)

subsection \<open>Artifact paths\<close>

lemma save_video_artifact: "list_all (artifact_of cfg m) (save_video w (videoPath cfg m))"
  by (simp add: save_video_def split: option.splits)

lemma check_artifacts: "list_all (artifact_of cfg m) (did (check w cfg m hb st))"
  by (simp add: check_def check_page_def check_finish_def save_video_artifact Let_def
      split: prod.splits sum.splits option.splits)

text \<open>
  C9, as the claim states it, fails: a second check of the same monitor, run after the
  first and against a site that now answers differently, writes its screenshot and its
  video to the very paths the first check wrote.
\<close>

theorem rerun_writes_same_paths:
  "filter (\<lambda>a. case a of Screenshot p \<Rightarrow> True | SaveAs p \<Rightarrow> True | _ \<Rightarrow> False)
     (did (check (example_page (answers 200)) example_config
        (example_monitor 7 ''https://a.example/'' None) example_heartbeat idle_chrome))
   = [Screenshot ''data/screenshots/eyJ.7.s3cret.png'', SaveAs ''data/videos/eyJ.7.s3cret.webm'']
   \<and> filter (\<lambda>a. case a of Screenshot p \<Rightarrow> True | SaveAs p \<Rightarrow> True | _ \<Rightarrow> False)
     (did (check (example_page (answers 503)) example_config
        (example_monitor 7 ''https://a.example/'' None) example_heartbeat
        (final (check (example_page (answers 200)) example_config
           (example_monitor 7 ''https://a.example/'' None) example_heartbeat idle_chrome))))
   = [Screenshot ''data/screenshots/eyJ.7.s3cret.png'', SaveAs ''data/videos/eyJ.7.s3cret.webm'']"
  by (simp add: check_def check_page_def check_finish_def save_video_def acquire_def getBrowser_def
      launch_shared_def example_page_def example_monitor_def example_protocol_def idle_chrome_def
      answers_def example_config_def example_sign_def testUrl_def videoPath_def screenshotPath_def
      filename_of_def path_join_def dec.simps digit_def Let_def)

text \<open>
  C9, amended. The artifact paths are a function of the monitor id, the secret and the
  two directories: with a signing function that is injective in its payload, two monitors
  with distinct ids have distinct screenshot paths and distinct video paths; and every
  check of a monitor, whatever the outside answers and whatever the state, writes its
  screenshot and its video to that monitor's one screenshot path and one video path, so a
  later check of the same monitor writes over the files of the earlier one.
\<close>

theorem artifact_paths_by_monitor_id:
  assumes "inj (\<lambda>i. jwt_sign cfg i (jwtSecret cfg))" and "mon_id m1 \<noteq> mon_id m2"
  shows "screenshotPath cfg m1 \<noteq> screenshotPath cfg m2
       \<and> videoPath cfg m1 \<noteq> videoPath cfg m2
       \<and> list_all (artifact_of cfg m1) (did (check w cfg m1 hb st))
       \<and> list_all (artifact_of cfg m1) (did (check w' cfg m1 hb' st'))"
proof -
  from assms have "jwt_sign cfg (mon_id m1) (jwtSecret cfg) \<noteq> jwt_sign cfg (mon_id m2) (jwtSecret cfg)"
    by (auto dest: injD)
  then show ?thesis
    by (simp add: screenshotPath_def videoPath_def filename_of_def path_join_def check_artifacts)
qed

theorem artifact_paths_by_monitor_id_witness:
  "inj (\<lambda>i. jwt_sign example_config i (jwtSecret example_config))
   \<and> mon_id (example_monitor 7 ''https://a.example/'' None) \<noteq> mon_id (example_monitor 8 ''https://a.example/'' None)
   \<and> screenshotPath example_config (example_monitor 7 ''https://a.example/'' None)
       \<noteq> screenshotPath example_config (example_monitor 8 ''https://a.example/'' None)
   \<and> videoPath example_config (example_monitor 7 ''https://a.example/'' None)
       \<noteq> videoPath example_config (example_monitor 8 ''https://a.example/'' None)"
proof -
  have i: "inj (\<lambda>i. jwt_sign example_config i (jwtSecret example_config))"
    by (rule injI) (simp add: example_config_def example_sign_def dec_inj)
  have n: "mon_id (example_monitor 7 ''https://a.example/'' None)
             \<noteq> mon_id (example_monitor 8 ''https://a.example/'' None)"
    by (simp add: example_monitor_def)
  from artifact_paths_by_monitor_id [OF i n] i n show ?thesis by simp
qed

subsection \<open>The remote browser in the shared variable\<close>

text \<open>
  C10. A check of a monitor with \<open>remote_browser\<close> set, whose connection succeeds, leaves
  the remote connection in the module variable \<open>browser\<close>, whatever happens in the rest of
  that check. While that connection reports itself connected, \<open>getBrowser()\<close> returns it
  without launching anything, so that the next check of a monitor without
  \<open>remote_browser\<close> takes hold of the remote browser.
\<close>

theorem remote_browser_served_to_local_check:
  assumes "remote_browser m1 = Some r" and "r \<noteq> 0"
    and "p_remote_get w1 r (user_id m1) = Inr u" and "p_connect w1 u = Inr n"
    and "remote_browser m2 = None" and "p_isConnected w2 (Connected u n)"
  shows "shared (final (check w1 cfg m1 hb1 st)) = Some (Connected u n)
       \<and> getBrowser w2 (shared (final (check w1 cfg m1 hb1 st)))
           = (Inr (Connected u n), Some (Connected u n))
       \<and> take 1 (did (check w2 cfg m2 hb2 (final (check w1 cfg m1 hb1 st))))
           = [Acquire (Connected u n)]"
proof -
  have s: "shared (final (check w1 cfg m1 hb1 st)) = Some (Connected u n)"
    using assms(1-4) by (simp add: check_shared acquire_def getRemoteBrowser_def)
  have g: "getBrowser w2 (Some (Connected u n)) = (Inr (Connected u n), Some (Connected u n))"
    using assms(6) by (simp add: getBrowser_def)
  have "take 1 (did (check w2 cfg m2 hb2 (final (check w1 cfg m1 hb1 st))))
          = [Acquire (Connected u n)]"
    using assms(5) s g
    by (simp add: check_def check_page_def check_finish_def acquire_def Let_def
        split: sum.splits option.splits)
  with s g show ?thesis by simp
qed

theorem remote_browser_served_to_local_check_witness:
  "remote_browser (example_monitor 1 ''https://a.example/'' (Some 4)) = Some 4 \<and> (4::nat) \<noteq> 0
   \<and> p_remote_get (example_page (answers 200)) 4 (user_id (example_monitor 1 ''https://a.example/'' (Some 4)))
       = Inr ''ws://browsers.example:3000''
   \<and> p_connect (example_page (answers 200)) ''ws://browsers.example:3000'' = Inr 7
   \<and> remote_browser (example_monitor 2 ''https://b.example/'' None) = None
   \<and> p_isConnected (example_page (answers 200)) (Connected ''ws://browsers.example:3000'' 7)
   \<and> take 1 (did (check (example_page (answers 200)) example_config
        (example_monitor 2 ''https://b.example/'' None) example_heartbeat
        (final (check (example_page (answers 200)) example_config
           (example_monitor 1 ''https://a.example/'' (Some 4)) example_heartbeat idle_chrome))))
     = [Acquire (Connected ''ws://browsers.example:3000'' 7)]"
proof -
  have a: "remote_browser (example_monitor 1 ''https://a.example/'' (Some 4)) = Some 4"
    and b: "(4::nat) \<noteq> 0"
    and c: "p_remote_get (example_page (answers 200)) 4
              (user_id (example_monitor 1 ''https://a.example/'' (Some 4))) = Inr ''ws://browsers.example:3000''"
    and d: "p_connect (example_page (answers 200)) ''ws://browsers.example:3000'' = Inr 7"
    and e: "remote_browser (example_monitor 2 ''https://b.example/'' None) = None"
    and f: "p_isConnected (example_page (answers 200)) (Connected ''ws://browsers.example:3000'' 7)"
    by (simp_all add: example_monitor_def example_page_def)
  from remote_browser_served_to_local_check [OF a b c d e f] a b c d e f show ?thesis by simp
qed

subsection \<open>Jobs in the queue\<close>

lemma jobs_queue_add_fresh:
  "jid \<notin> set (map jobId (jobs q)) \<Longrightarrow>
   jobs (queue_add nm mid d (Some jid) t q) = jobs q @ [new_job jid nm mid d t]"
  by (simp add: queue_add_def)

lemma jobs_queue_add_auto:
  "jobs (queue_add nm mid d None t q) = jobs q @ [new_job (dec (Suc (counter q))) nm mid d t]"
  by (simp add: queue_add_def)

lemma queue_addBulk_fresh:
  "distinct (map b_jobId bs) \<Longrightarrow> set (map b_jobId bs) \<inter> set (map jobId (jobs q)) = {} \<Longrightarrow>
   jobs (queue_addBulk bs t q) =
     jobs q @ map (\<lambda>b. new_job (b_jobId b) (b_name b) (b_monitorId b) (b_delay b) t) bs"
proof (induction bs arbitrary: q)
  case Nil
  then show ?case by simp
next
  case (Cons b bs)
  let ?q1 = "queue_add (b_name b) (b_monitorId b) (b_delay b) (Some (b_jobId b)) t q"
  from Cons.prems have fresh: "b_jobId b \<notin> set (map jobId (jobs q))" by auto
  then have j1: "jobs ?q1 = jobs q @ [new_job (b_jobId b) (b_name b) (b_monitorId b) (b_delay b) t]"
    by (rule jobs_queue_add_fresh)
  from Cons.prems have d: "distinct (map b_jobId bs)" by simp
  from Cons.prems have "set (map b_jobId bs) \<inter> set (map jobId (jobs ?q1)) = {}"
    by (auto simp: j1 new_job_def)
  from Cons.IH[OF d this] j1 show ?case by simp
qed

lemma start_entries_monitorId:
  "map b_monitorId (start_entries ms k rnd clock) = map mon_id ms"
  by (induction ms arbitrary: k) auto

lemma start_entries_member:
  "b \<in> set (start_entries ms k rnd clock) \<Longrightarrow>
   \<exists>n. b_name b = job_name_of (b_monitorId b) \<and> b_jobId b = job_id_of (b_monitorId b) (clock n)
        \<and> b_delay b = rnd n * 10000"
  by (induction ms arbitrary: k) auto

lemma start_entries_distinct:
  "distinct (map mon_id ms) \<Longrightarrow> distinct (map b_jobId (start_entries ms k rnd clock))"
proof (induction ms arbitrary: k)
  case Nil
  then show ?case by simp
next
  case (Cons m ms)
  have "job_id_of (mon_id m) (clock k) \<notin> set (map b_jobId (start_entries ms (Suc k) rnd clock))"
  proof
    assume "job_id_of (mon_id m) (clock k) \<in> set (map b_jobId (start_entries ms (Suc k) rnd clock))"
    then obtain b where b: "b \<in> set (start_entries ms (Suc k) rnd clock)"
      and e: "b_jobId b = job_id_of (mon_id m) (clock k)" by auto
    from start_entries_member[OF b] obtain n where "b_jobId b = job_id_of (b_monitorId b) (clock n)"
      by blast
    with e have "b_monitorId b = mon_id m" by (auto dest: job_id_of_inj)
    moreover from b have "b_monitorId b \<in> set (map b_monitorId (start_entries ms (Suc k) rnd clock))"
      by simp
    ultimately have "mon_id m \<in> set (map mon_id ms)" by (simp add: start_entries_monitorId)
    with Cons.prems show False by simp
  qed
  with Cons show ?case by simp
qed

lemma jobs_qm_startAllMonitors:
  assumes "distinct (map mon_id (find_active rows))"
  shows "jobs (qm_startAllMonitors rows rnd clock q) =
           map (\<lambda>b. new_job (b_jobId b) (b_name b) (b_monitorId b) (b_delay b)
                      (clock (length (find_active rows))))
             (start_entries (find_active rows) 0 rnd clock)"
  using queue_addBulk_fresh[OF start_entries_distinct[OF assms, of 0 rnd clock], of empty_queue]
  by (simp add: qm_startAllMonitors_def obliterate_def empty_queue_def Let_def)

lemma count_distinct_key:
  "distinct (map f xs) \<Longrightarrow> length (filter (\<lambda>x. f x = i) xs) = (if i \<in> set (map f xs) then 1 else 0)"
  by (induction xs) auto

lemma new_job_outstanding: "is_outstanding (new_job jid nm mid d t)"
  by (simp add: new_job_def is_outstanding_def)

lemma outstanding_after_startAll:
  assumes "distinct (map mon_id (find_active rows))"
  shows "length (outstanding (qm_startAllMonitors rows rnd clock q) i)
           = (if i \<in> set (map mon_id (find_active rows)) then 1 else 0)"
proof -
  let ?q = "qm_startAllMonitors rows rnd clock q"
  have m: "map monitorId (jobs ?q) = map mon_id (find_active rows)"
    by (simp add: jobs_qm_startAllMonitors[OF assms] o_def new_job_def
        start_entries_monitorId[symmetric, of "find_active rows" 0 rnd clock])
  have "\<forall>j \<in> set (jobs ?q). is_outstanding j"
    by (auto simp: jobs_qm_startAllMonitors[OF assms] new_job_outstanding)
  then have "outstanding ?q i = filter (\<lambda>j. monitorId j = i) (jobs ?q)"
    unfolding outstanding_def by (intro filter_cong) auto
  with count_distinct_key[of monitorId "jobs ?q" i] assms m show ?thesis by simp
qed

subsection \<open>One attempt of the worker\<close>

lemma findOne_active_id: "findOne_active rows i = Some m \<Longrightarrow> mon_id m = i \<and> active m"
  by (auto simp: findOne_active_def find_Some_iff)

lemma scheduleNextCheck_jobs:
  "jobs (scheduleNextCheck m t q) =
     (if job_id_of (mon_id m) t \<in> set (map jobId (jobs q)) then jobs q else jobs q @ [next_job m t])"
  by (simp add: scheduleNextCheck_def queue_add_def next_job_def new_job_def)

lemma update_job_at:
  assumes "jobs q = pre @ j # post" and "jobId j \<notin> jobId ` set pre" and "jobId j \<notin> jobId ` set post"
  shows "update_job (jobId j) f q = q\<lparr>jobs := pre @ f j # post\<rparr>"
proof -
  have "\<forall>k \<in> set pre. jobId k \<noteq> jobId j" using assms(2) by (metis image_eqI)
  then have "map (\<lambda>k. if jobId k = jobId j then f k else k) pre = pre"
    by (intro map_idI) simp
  moreover have "\<forall>k \<in> set post. jobId k \<noteq> jobId j" using assms(3) by (metis image_eqI)
  then have "map (\<lambda>k. if jobId k = jobId j then f k else k) post = post"
    by (intro map_idI) simp
  ultimately show ?thesis using assms(1) by (simp add: update_job_def)
qed

lemma find_at:
  "jobId j \<notin> jobId ` set pre \<Longrightarrow> P j \<Longrightarrow>
   find (\<lambda>k. jobId k = jobId j \<and> P k) (pre @ j # post) = Some j"
  by (induction pre) auto

lemma attempt_at:
  assumes "jobs q = pre @ j # post" and "jobId j \<notin> jobId ` set pre" and "jobId j \<notin> jobId ` set post"
    and "jstate j = Waiting \<or> jstate j = Delayed"
  shows "worker_attempt qm rows beat t (jobId j) q =
     (case processMonitorJob rows beat t (j\<lparr>jstate := Active\<rparr>)
             (q\<lparr>jobs := pre @ j\<lparr>jstate := Active\<rparr> # post\<rparr>) of
        (r, q1) \<Rightarrow> worker_settle (defaultJobOptions qm) (jobId j) r q1)"
proof -
  have t: "worker_take (jobId j) q = q\<lparr>jobs := pre @ j\<lparr>jstate := Active\<rparr> # post\<rparr>"
    using assms(4) by (simp add: worker_take_def update_job_at[OF assms(1-3)])
  have "find (\<lambda>k. jobId k = jobId (j\<lparr>jstate := Active\<rparr>) \<and> jstate k = Active)
          (pre @ j\<lparr>jstate := Active\<rparr> # post) = Some (j\<lparr>jstate := Active\<rparr>)"
    using assms(2) by (intro find_at) auto
  then show ?thesis by (simp add: worker_attempt_def taken_job_def t)
qed

lemma attempt_fails:
  assumes "jobs q = pre @ j # post" and "jobId j \<notin> jobId ` set pre" and "jobId j \<notin> jobId ` set post"
    and "jstate j = Waiting \<or> jstate j = Delayed"
    and "findOne_active rows (monitorId j) = Some m" and "beat m = Some e"
  shows "worker_attempt qm rows beat t (jobId j) q
           = q\<lparr>jobs := pre @ after_failure (defaultJobOptions qm) j # post\<rparr>"
proof -
  let ?j = "j\<lparr>jstate := Active\<rparr>"
  let ?q = "q\<lparr>jobs := pre @ ?j # post\<rparr>"
  have p: "processMonitorJob rows beat t ?j ?q = (Inl e, ?q)"
    using assms(5,6) by (simp add: processMonitorJob_def)
  have s: "jobs ?q = pre @ ?j # post" "jobId ?j \<notin> jobId ` set pre" "jobId ?j \<notin> jobId ` set post"
    using assms(2,3) by simp_all
  show ?thesis
    unfolding attempt_at[OF assms(1-4)] p
    by (simp add: worker_settle_def update_job_at[OF s, simplified] after_failure_def Let_def)
qed

lemma attempt_succeeds:
  assumes "jobs q = pre @ j # post" and "jobId j \<notin> jobId ` set pre" and "jobId j \<notin> jobId ` set post"
    and "jstate j = Waiting \<or> jstate j = Delayed"
    and "findOne_active rows (monitorId j) = Some m" and "beat m = None"
    and "job_id_of (monitorId j) t \<notin> set (map jobId (jobs q))"
  shows "worker_attempt qm rows beat t (jobId j) q
           = q\<lparr>jobs := pre @ j\<lparr>attemptsMade := Suc (attemptsMade j), jstate := Completed\<rparr>
                            # post @ [next_job m t]\<rparr>"
proof -
  let ?j = "j\<lparr>jstate := Active\<rparr>"
  let ?q = "q\<lparr>jobs := pre @ ?j # post\<rparr>"
  let ?q1 = "q\<lparr>jobs := pre @ ?j # (post @ [next_job m t])\<rparr>"
  from findOne_active_id[OF assms(5)] have i: "mon_id m = monitorId j" by simp
  have fresh: "job_id_of (mon_id m) t \<notin> set (map jobId (jobs ?q))"
    using assms(1,7) i by auto
  have "scheduleNextCheck m t ?q = ?q1"
    using fresh by (simp add: scheduleNextCheck_def queue_add_def next_job_def new_job_def)
  then have p: "processMonitorJob rows beat t ?j ?q = (Inr (Checked (monitorId j)), ?q1)"
    using assms(5,6) by (simp add: processMonitorJob_def)
  have n: "jobId (next_job m t) \<noteq> jobId j"
    using assms(1,7) i by (auto simp: next_job_def)
  have s: "jobs ?q1 = pre @ ?j # (post @ [next_job m t])" "jobId ?j \<notin> jobId ` set pre"
    "jobId ?j \<notin> jobId ` set (post @ [next_job m t])"
    using assms(2,3) n by auto
  show ?thesis
    unfolding attempt_at[OF assms(1-4)] p
    by (simp add: worker_settle_def update_job_at[OF s, simplified] Let_def)
qed

lemma pending_at:
  "jobs q = pre @ j # post \<Longrightarrow> jstate j = Waiting \<or> jstate j = Delayed \<Longrightarrow>
   jobId j \<in> set (map jobId (getJobs_pending q))"
  by (auto simp: getJobs_pending_def)

lemma not_pending_at:
  "jobs q = pre @ j # post \<Longrightarrow> jobId j \<notin> jobId ` set pre \<Longrightarrow> jobId j \<notin> jobId ` set post \<Longrightarrow>
   jstate j \<noteq> Waiting \<Longrightarrow> jstate j \<noteq> Delayed \<Longrightarrow>
   jobId j \<notin> set (map jobId (getJobs_pending q))"
  by (auto simp: getJobs_pending_def)

subsection \<open>Counting outstanding jobs\<close>

lemma filter_map_le:
  "(\<And>x. x \<in> set xs \<Longrightarrow> P (g x) \<Longrightarrow> P x) \<Longrightarrow> length (filter P (map g xs)) \<le> length (filter P xs)"
  by (induction xs) auto

lemma filter_map_less:
  "(\<And>x. x \<in> set xs \<Longrightarrow> P (g x) \<Longrightarrow> P x) \<Longrightarrow> \<exists>x \<in> set xs. P x \<and> \<not> P (g x) \<Longrightarrow>
   length (filter P (map g xs)) < length (filter P xs)"
proof (induction xs)
  case Nil
  then show ?case by simp
next
  case (Cons a xs)
  have le: "length (filter P (map g xs)) \<le> length (filter P xs)"
    using Cons.prems(1) by (intro filter_map_le) auto
  show ?case
  proof (cases "P a \<and> \<not> P (g a)")
    case True
    with le show ?thesis by auto
  next
    case False
    with Cons.prems(2) have "\<exists>x \<in> set xs. P x \<and> \<not> P (g x)" by auto
    with Cons.IH Cons.prems(1) have "length (filter P (map g xs)) < length (filter P xs)" by auto
    with False Cons.prems(1)[of a] show ?thesis by auto
  qed
qed

lemma job_id_of_eq_iff: "job_id_of i t = job_id_of i' t' \<longleftrightarrow> i = i' \<and> t = t'"
  using job_id_of_inj by blast

lemma settle_as_map:
  "jobs (worker_settle opts jid r q) =
     map (\<lambda>k. if jobId k = jid \<and> jstate k = Active
               then (case r of
                       Inr _ \<Rightarrow> k\<lparr>attemptsMade := Suc (attemptsMade k), jstate := Completed\<rparr>
                     | Inl _ \<Rightarrow> after_failure opts k)
               else k) (jobs q)"
  by (auto simp: worker_settle_def update_job_def after_failure_def Let_def split: sum.splits)

lemma settle_step_outstanding:
  "is_outstanding
     (if jobId k = jid \<and> jstate k = Active
      then (case r of
              Inr _ \<Rightarrow> k\<lparr>attemptsMade := Suc (attemptsMade k), jstate := Completed\<rparr>
            | Inl _ \<Rightarrow> after_failure opts k)
      else k) \<Longrightarrow> is_outstanding k"
  by (auto simp: is_outstanding_def split: if_splits)

lemma settle_step_monitorId:
  "monitorId
     (if jobId k = jid \<and> jstate k = Active
      then (case r of
              Inr _ \<Rightarrow> k\<lparr>attemptsMade := Suc (attemptsMade k), jstate := Completed\<rparr>
            | Inl _ \<Rightarrow> after_failure opts k)
      else k) = monitorId k"
  by (auto simp: after_failure_def split: sum.splits)

lemma worker_settle_outstanding:
  "length (outstanding (worker_settle opts jid r q) i) \<le> length (outstanding q i)"
  unfolding outstanding_def settle_as_map
  by (rule filter_map_le) (metis settle_step_outstanding settle_step_monitorId)

lemma handler_jobs:
  "jobs (snd (processMonitorJob rows beat t j q)) =
     (case findOne_active rows (monitorId j) of
        None \<Rightarrow> jobs q
      | Some m \<Rightarrow>
          if beat m = None \<and> job_id_of (monitorId j) t \<notin> set (map jobId (jobs q))
          then jobs q @ [next_job m t] else jobs q)"
  by (auto simp: processMonitorJob_def scheduleNextCheck_jobs dest: findOne_active_id
      split: option.splits)

lemma next_job_outstanding: "is_outstanding (next_job m t)"
  by (simp add: next_job_def is_outstanding_def)

lemma handler_outstanding_le:
  "length (outstanding (snd (processMonitorJob rows beat t j q)) k)
     \<le> length (outstanding q k) + (if k = monitorId j then 1 else 0)"
  by (auto simp: outstanding_def handler_jobs next_job_def dest: findOne_active_id
      split: option.splits)

lemma handler_outstanding_adds:
  assumes "findOne_active rows (monitorId j) = Some m" and "beat m = None"
    and "job_id_of (monitorId j) t \<notin> set (map jobId (jobs q))"
  shows "length (outstanding (snd (processMonitorJob rows beat t j q)) (monitorId j))
           = Suc (length (outstanding q (monitorId j)))"
  using assms findOne_active_id[OF assms(1)]
  by (simp add: outstanding_def handler_jobs next_job_outstanding) (simp add: next_job_def)

lemma handler_then_settle_outstanding:
  assumes "j \<in> set (jobs q)" and "jstate j = Active"
  shows "length (outstanding (worker_settle opts (jobId j) (fst (processMonitorJob rows beat t j q))
                                (snd (processMonitorJob rows beat t j q))) i)
           \<le> length (outstanding q i)"
proof -
  let ?P = "\<lambda>k. monitorId k = i \<and> is_outstanding k"
  obtain r q1 where p: "processMonitorJob rows beat t j q = (r, q1)"
    by (cases "processMonitorJob rows beat t j q")
  let ?g = "\<lambda>k. if jobId k = jobId j \<and> jstate k = Active
               then (case r of
                       Inr _ \<Rightarrow> k\<lparr>attemptsMade := Suc (attemptsMade k), jstate := Completed\<rparr>
                     | Inl _ \<Rightarrow> after_failure opts k)
               else k"
  have mono: "?P (?g k) \<Longrightarrow> ?P k" for k
    by (metis settle_step_outstanding settle_step_monitorId)
  have le: "length (filter ?P (map ?g (jobs q))) \<le> length (filter ?P (jobs q))"
    by (rule filter_map_le) (rule mono)
  show ?thesis
  proof (cases "jobs q1 = jobs q")
    case True
    with le show ?thesis by (simp add: p outstanding_def settle_as_map)
  next
    case False
    with p obtain m where m: "findOne_active rows (monitorId j) = Some m" "beat m = None"
      "r = Inr (Checked (monitorId j))" "q1 = scheduleNextCheck m t q"
      by (auto simp: processMonitorJob_def split: option.splits)
    from False m(4) have fresh: "job_id_of (mon_id m) t \<notin> set (map jobId (jobs q))"
      and q1: "jobs q1 = jobs q @ [next_job m t]"
      by (auto simp: scheduleNextCheck_jobs split: if_splits)
    from fresh assms(1) have "jobId (next_job m t) \<noteq> jobId j" by (auto simp: next_job_def)
    then have gn: "?g (next_job m t) = next_job m t" by simp
    from findOne_active_id[OF m(1)] have mi: "monitorId (next_job m t) = monitorId j"
      by (simp add: next_job_def)
    show ?thesis
    proof (cases "monitorId j = i")
      case True
      have "\<exists>x \<in> set (jobs q). ?P x \<and> \<not> ?P (?g x)"
        using assms True m(3) by (intro bexI[of _ j]) (auto simp: is_outstanding_def)
      from filter_map_less[of "jobs q" ?P ?g, OF mono this]
      have "length (filter ?P (map ?g (jobs q))) < length (filter ?P (jobs q))" by simp
      then show ?thesis using gn by (simp add: p outstanding_def settle_as_map q1)
    next
      case False
      with le mi gn show ?thesis by (simp add: p outstanding_def settle_as_map q1)
    qed
  qed
qed

subsection \<open>Starting all monitors through the queue\<close>

text \<open>
  C8. In queue mode \<open>startAllMonitors()\<close> takes the queue path; whatever the queue held
  before is gone, and the queue holds exactly one job per active monitor (the monitor ids
  of its jobs are the ids of the active monitors, in their order). Every job has a delay
  in [0, 10000) milliseconds (ten thousand times a value of \<open>Math.random()\<close>, which lies in
  [0, 1)), is waiting or delayed with no attempt made, and carries as its id the token
  \<open>monitor-${id}-${Date.now()}\<close>; the ids are pairwise distinct.
\<close>

theorem startAll_one_job_per_active_monitor:
  assumes "uses_queue (integ s)" and "isInitialized (integ s)"
    and "distinct (map mon_id (find_active (w_rows w)))"
    and "\<forall>k. 0 \<le> w_random w k \<and> w_random w k < 1"
  shows "fst (startAllMonitors w s) = [StartedAll ViaQueue]
       \<and> map monitorId (jobs (broker (snd (startAllMonitors w s)))) = map mon_id (find_active (w_rows w))
       \<and> distinct (map jobId (jobs (broker (snd (startAllMonitors w s)))))
       \<and> (\<forall>j \<in> set (jobs (broker (snd (startAllMonitors w s)))).
            0 \<le> delay j \<and> delay j < 10000
            \<and> (jstate j = Waiting \<or> jstate j = Delayed) \<and> attemptsMade j = 0
            \<and> job_name j = job_name_of (monitorId j)
            \<and> (\<exists>n. jobId j = job_id_of (monitorId j) (w_now w n)))
       \<and> (\<forall>i. length (outstanding (broker (snd (startAllMonitors w s))) i)
              = (if i \<in> set (map mon_id (find_active (w_rows w))) then 1 else 0))"
proof -
  let ?q = "qm_startAllMonitors (w_rows w) (w_random w) (w_now w) (broker s)"
  let ?es = "start_entries (find_active (w_rows w)) 0 (w_random w) (w_now w)"
  let ?t = "w_now w (length (find_active (w_rows w)))"
  have i: "initialize w s = ([], s)" using assms(1,2) by (simp add: initialize_def uses_queue_def)
  have r: "startAllMonitors w s = ([StartedAll ViaQueue], s\<lparr>broker := ?q\<rparr>)"
    using assms(1) by (simp add: startAllMonitors_def i)
  have j: "jobs ?q = map (\<lambda>b. new_job (b_jobId b) (b_name b) (b_monitorId b) (b_delay b) ?t) ?es"
    by (rule jobs_qm_startAllMonitors[OF assms(3)])
  have m: "map monitorId (jobs ?q) = map mon_id (find_active (w_rows w))"
    by (simp add: j o_def new_job_def
        start_entries_monitorId[symmetric, of "find_active (w_rows w)" 0 "w_random w" "w_now w"])
  have d: "distinct (map jobId (jobs ?q))"
    using start_entries_distinct[OF assms(3), of 0 "w_random w" "w_now w"]
    by (simp add: j o_def new_job_def)
  have e: "\<forall>j \<in> set (jobs ?q).
            0 \<le> delay j \<and> delay j < 10000
            \<and> (jstate j = Waiting \<or> jstate j = Delayed) \<and> attemptsMade j = 0
            \<and> job_name j = job_name_of (monitorId j)
            \<and> (\<exists>n. jobId j = job_id_of (monitorId j) (w_now w n))"
  proof
    fix x assume "x \<in> set (jobs ?q)"
    then obtain b where b: "b \<in> set ?es"
      and x: "x = new_job (b_jobId b) (b_name b) (b_monitorId b) (b_delay b) ?t"
      by (auto simp: j)
    from start_entries_member[OF b] obtain n where n: "b_name b = job_name_of (b_monitorId b)"
      "b_jobId b = job_id_of (b_monitorId b) (w_now w n)" "b_delay b = w_random w n * 10000"
      by blast
    from assms(4) have "0 \<le> w_random w n" "w_random w n < 1" by auto
    then have "0 \<le> b_delay b" "b_delay b < 10000" using n(3) by auto
    with n show "0 \<le> delay x \<and> delay x < 10000
            \<and> (jstate x = Waiting \<or> jstate x = Delayed) \<and> attemptsMade x = 0
            \<and> job_name x = job_name_of (monitorId x)
            \<and> (\<exists>n. jobId x = job_id_of (monitorId x) (w_now w n))"
      by (auto simp: x new_job_def)
  qed
  from outstanding_after_startAll[OF assms(3), of "w_random w" "w_now w" "broker s"]
  have o: "\<forall>i. length (outstanding ?q i)
              = (if i \<in> set (map mon_id (find_active (w_rows w))) then 1 else 0)" by blast
  from m d e o show ?thesis unfolding r by simp
qed

theorem startAll_one_job_per_active_monitor_witness:
  "uses_queue (integ queue_system) \<and> isInitialized (integ queue_system)
   \<and> distinct (map mon_id (find_active (w_rows broker_up)))
   \<and> (\<forall>k. 0 \<le> w_random broker_up k \<and> w_random broker_up k < 1)
   \<and> map monitorId (jobs (broker (snd (startAllMonitors broker_up queue_system)))) = [1, 2]
   \<and> map delay (jobs (broker (snd (startAllMonitors broker_up queue_system)))) = [5000, 5000]"
proof -
  have a: "uses_queue (integ queue_system)" "isInitialized (integ queue_system)"
    by (simp_all add: queue_system_def broker_up_def example_world_def fresh_system_def
        new_QueueIntegration_def initialize_def uses_queue_def)
  have r: "find_active (w_rows broker_up) = example_rows"
    by (simp add: broker_up_def example_world_def find_active_def example_rows_def example_monitor_def)
  have d: "distinct (map mon_id (find_active (w_rows broker_up)))"
    by (simp add: r example_rows_def example_monitor_def)
  have k: "\<forall>k. 0 \<le> w_random broker_up k \<and> w_random broker_up k < 1"
    by (simp add: broker_up_def example_world_def)
  have q: "broker (snd (startAllMonitors broker_up queue_system))
             = qm_startAllMonitors (w_rows broker_up) (w_random broker_up) (w_now broker_up)
                 (broker queue_system)"
    using a by (simp add: startAllMonitors_def initialize_def uses_queue_def)
  have j: "map delay (jobs (broker (snd (startAllMonitors broker_up queue_system)))) = [5000, 5000]"
    unfolding q jobs_qm_startAllMonitors[OF d] r
    by (simp add: example_rows_def example_monitor_def new_job_def broker_up_def example_world_def)
  from startAll_one_job_per_active_monitor [OF a d k] a d k j show ?thesis
    by (simp add: r example_rows_def example_monitor_def)
qed

subsection \<open>The next check\<close>

text \<open>
  C7. For a monitor with interval \<open>I\<close> \<open>\<ge>\<close> 1 that is still active and whose check returns,
  the handler completes and asks the queue for one job of that monitor with a delay of
  \<open>I * 1000\<close> milliseconds; the request is made at the clock reading \<open>t\<close> taken after the
  check has returned, and no earlier time enters it. Unless the queue already holds a job
  with the id \<open>monitor-${id}-${t}\<close>, the queue gains exactly that job: delayed, stamped
  \<open>t\<close>, no attempt made, delay \<open>I * 1000\<close>.
\<close>

theorem next_check_after_interval:
  assumes "findOne_active rows (monitorId j) = Some m" and "interval m = Some I" and "1 \<le> I"
    and "beat m = None"
  shows "processMonitorJob rows beat t j q =
           (Inr (Checked (monitorId j)),
            queue_add (job_name_of (monitorId j)) (monitorId j) (real_of_int (I * 1000))
              (Some (job_id_of (monitorId j) t)) t q)
       \<and> (if job_id_of (monitorId j) t \<in> set (map jobId (jobs q))
          then jobs (snd (processMonitorJob rows beat t j q)) = jobs q
          else jobs (snd (processMonitorJob rows beat t j q)) =
                 jobs q @ [\<lparr>jobId = job_id_of (monitorId j) t, job_name = job_name_of (monitorId j),
                            monitorId = monitorId j, delay = real_of_int (I * 1000), timestamp = t,
                            attemptsMade = 0, jstate = Delayed\<rparr>])"
proof -
  from findOne_active_id[OF assms(1)] have i: "mon_id m = monitorId j" by simp
  from assms(2,3) have d: "interval_or_default m = I" by (simp add: interval_or_default_def)
  have p: "processMonitorJob rows beat t j q =
           (Inr (Checked (monitorId j)),
            queue_add (job_name_of (monitorId j)) (monitorId j) (real_of_int (I * 1000))
              (Some (job_id_of (monitorId j) t)) t q)"
    using assms(1,4) by (simp add: processMonitorJob_def scheduleNextCheck_def i d)
  from assms(3) show ?thesis unfolding p by (simp add: queue_add_def new_job_def)
qed

theorem next_check_after_interval_witness:
  "findOne_active example_rows (monitorId (example_job 2))
     = Some ((example_monitor 2 ''https://b.example/'' None)\<lparr>interval := Some 30\<rparr>)
   \<and> interval ((example_monitor 2 ''https://b.example/'' None)\<lparr>interval := Some 30\<rparr>) = Some 30
   \<and> (1::int) \<le> 30
   \<and> returns ((example_monitor 2 ''https://b.example/'' None)\<lparr>interval := Some 30\<rparr>) = None
   \<and> map (\<lambda>k. (monitorId k, delay k, timestamp k, jstate k))
        (jobs (snd (processMonitorJob example_rows returns 5000 (example_job 2)
                      \<lparr>jobs = [example_job 2], counter = 0\<rparr>)))
       = [(2, 0, 1000, Active), (2, 30000, 5000, Delayed)]"
proof -
  have a: "findOne_active example_rows (monitorId (example_job 2))
     = Some ((example_monitor 2 ''https://b.example/'' None)\<lparr>interval := Some 30\<rparr>)"
    by (simp add: findOne_active_def example_rows_def example_job_def new_job_def example_monitor_def)
  have b: "interval ((example_monitor 2 ''https://b.example/'' None)\<lparr>interval := Some 30\<rparr>) = Some 30"
    by simp
  have c: "(1::int) \<le> 30" by simp
  have d: "returns ((example_monitor 2 ''https://b.example/'' None)\<lparr>interval := Some 30\<rparr>) = None"
    by (simp add: returns_def)
  have f: "job_id_of (monitorId (example_job 2)) 5000
             \<notin> set (map jobId (jobs \<lparr>jobs = [example_job 2], counter = 0\<rparr>))"
    by (auto simp: example_job_def new_job_def dest: job_id_of_inj)
  from next_check_after_interval [of example_rows "example_job 2"
      "(example_monitor 2 ''https://b.example/'' None)\<lparr>interval := Some 30\<rparr>" 30 returns 5000
      "\<lparr>jobs = [example_job 2], counter = 0\<rparr>"] f a b c d
  show ?thesis by (simp add: example_job_def new_job_def queue_add_def)
qed

subsection \<open>Outstanding jobs of one monitor\<close>

lemma worker_take_outstanding:
  "length (outstanding (worker_take jid q) i) = length (outstanding q i)"
proof -
  let ?g = "\<lambda>j::job. if jobId j = jid
              then (if jstate j = Waiting \<or> jstate j = Delayed then j\<lparr>jstate := Active\<rparr> else j) else j"
  have "filter (\<lambda>j. monitorId j = i \<and> is_outstanding j) (map ?g (jobs q))
          = map ?g (filter (\<lambda>j. monitorId j = i \<and> is_outstanding j) (jobs q))"
    unfolding filter_map by (intro arg_cong[where f = "map ?g"] filter_cong)
      (auto simp: is_outstanding_def)
  then show ?thesis by (simp add: worker_take_def update_job_def outstanding_def)
qed

lemma started_system_jobs:
  "jobs (broker started_system)
     = [new_job (job_id_of 1 1000) (job_name_of 1) 1 5000 1002,
        new_job (job_id_of 2 1001) (job_name_of 2) 2 5000 1002]"
  by (simp add: started_system_def queue_system_def broker_up_def example_world_def
      fresh_system_def new_QueueIntegration_def initialize_def startAllMonitors_def uses_queue_def
      qm_startAllMonitors_def find_active_def example_rows_def example_monitor_def obliterate_def
      empty_queue_def queue_add_def new_job_def job_id_of_eq_iff Let_def)

lemma started_system_taken:
  "jobs (worker_take (job_id_of 1 1000) (broker started_system))
     = [taken_first, new_job (job_id_of 2 1001) (job_name_of 2) 2 5000 1002]"
  unfolding worker_take_def update_job_def started_system_jobs
  by (simp add: taken_first_def new_job_def job_id_of_eq_iff)

text \<open>
  C1, as the claim states it, fails: after \<open>startAllMonitors()\<close> has queued one job for
  monitor 1, \<open>startMonitor(1)\<close> adds a second one while the first is still delayed.
\<close>

theorem startMonitor_adds_second_job:
  "map (\<lambda>j. (monitorId j, jstate j))
     (outstanding (broker (snd (run [(broker_up, StartAllMonitors), (broker_up, StartMonitor 1)]
                                  (fresh_system True)))) 1)
   = [(1, Delayed), (1, Waiting)]"
  by (simp add: broker_up_def example_world_def fresh_system_def new_QueueIntegration_def
      initialize_def startAllMonitors_def startMonitor_def uses_queue_def qm_startAllMonitors_def
      find_active_def example_rows_def example_monitor_def obliterate_def empty_queue_def
      queue_add_def new_job_def outstanding_def is_outstanding_def job_id_of_def job_name_of_def
      dec.simps digit_def Let_def)

text \<open>
  C1, amended. In queue mode, right after \<open>startAllMonitors()\<close> every active monitor id
  has exactly one outstanding job and every other id none. Later calls do not keep that
  bound. \<open>startMonitor(id)\<close> adds one outstanding job for \<open>id\<close> whatever the queue holds
  for it, and leaves the jobs of every other monitor as they were. The handler of a job
  adds at most one job, and only for the monitor of its job; when the monitor is still
  active, its check returns and the id of the next job is new, it adds exactly one without
  looking at its own job (which is still active while the handler runs, or gone when the
  queue was emptied meanwhile), so that the monitor then has one outstanding job more
  than before. Moving a job to active and settling a job never raise the number of
  outstanding jobs of any monitor; and when the job of a handler is still in the queue and
  active, the handler followed by the settlement of that job leaves no monitor with more
  outstanding jobs than it had before the handler ran.
\<close>

theorem outstanding_jobs_per_monitor:
  assumes "uses_queue (integ s)" and "isInitialized (integ s)"
    and "distinct (map mon_id (find_active (w_rows w)))" and "i' \<noteq> i"
  shows "(\<forall>k. length (outstanding (broker (snd (startAllMonitors w s))) k)
              = (if k \<in> set (map mon_id (find_active (w_rows w))) then 1 else 0))
       \<and> length (outstanding (broker (snd (startMonitor w i s))) i)
           = Suc (length (outstanding (broker s) i))
       \<and> outstanding (broker (snd (startMonitor w i s))) i' = outstanding (broker s) i'
       \<and> length (outstanding (snd (processMonitorJob rows beat t j q)) k)
           \<le> length (outstanding q k) + (if k = monitorId j then 1 else 0)
       \<and> (findOne_active rows (monitorId j) = Some m \<and> beat m = None
            \<and> job_id_of (monitorId j) t \<notin> set (map jobId (jobs q)) \<longrightarrow>
          length (outstanding (snd (processMonitorJob rows beat t j q)) (monitorId j))
            = Suc (length (outstanding q (monitorId j))))
       \<and> length (outstanding (worker_take jid q) k) = length (outstanding q k)
       \<and> length (outstanding (worker_settle opts jid r q) k) \<le> length (outstanding q k)
       \<and> (j \<in> set (jobs q) \<and> jstate j = Active \<longrightarrow>
          length (outstanding (worker_settle opts (jobId j) (fst (processMonitorJob rows beat t j q))
                                 (snd (processMonitorJob rows beat t j q))) k)
            \<le> length (outstanding q k))"
proof -
  have "startAllMonitors w s =
          ([StartedAll ViaQueue],
           s\<lparr>broker := qm_startAllMonitors (w_rows w) (w_random w) (w_now w) (broker s)\<rparr>)"
    using assms(1,2) by (simp add: startAllMonitors_def initialize_def uses_queue_def)
  then have a: "\<forall>k. length (outstanding (broker (snd (startAllMonitors w s))) k)
              = (if k \<in> set (map mon_id (find_active (w_rows w))) then 1 else 0)"
    by (simp add: outstanding_after_startAll[OF assms(3)])
  have c: "jobs (broker (snd (startMonitor w i s)))
             = jobs (broker s) @ [new_job (dec (Suc (counter (broker s)))) (job_name_of i) i 0 (w_now w 0)]"
    using assms(1) by (simp add: startMonitor_def jobs_queue_add_auto)
  from c have s1: "length (outstanding (broker (snd (startMonitor w i s))) i)
                     = Suc (length (outstanding (broker s) i))"
    by (simp add: outstanding_def new_job_def is_outstanding_def)
  from c assms(4) have s2: "outstanding (broker (snd (startMonitor w i s))) i' = outstanding (broker s) i'"
    by (simp add: outstanding_def new_job_def)
  from a s1 s2 handler_outstanding_le[of rows beat t j q k]
    handler_outstanding_adds[of rows j m beat t q]
    worker_take_outstanding[of jid q k] worker_settle_outstanding[of opts jid r q k]
    handler_then_settle_outstanding[of j q opts rows beat t k]
  show ?thesis by blast
qed

theorem outstanding_jobs_per_monitor_witness:
  "uses_queue (integ started_system) \<and> isInitialized (integ started_system)
   \<and> distinct (map mon_id (find_active (w_rows broker_up))) \<and> (2::nat) \<noteq> 1
   \<and> length (outstanding (broker started_system) 1) = 1
   \<and> length (outstanding (broker (snd (startMonitor broker_up 1 started_system))) 1) = 2
   \<and> length (outstanding (broker (snd (startMonitor broker_up 1 started_system))) 2) = 1
   \<and> findOne_active example_rows (monitorId taken_first)
       = Some (example_monitor 1 ''https://a.example/'' None)
   \<and> returns (example_monitor 1 ''https://a.example/'' None) = None
   \<and> job_id_of (monitorId taken_first) 9000
       \<notin> set (map jobId (jobs (worker_take (job_id_of 1 1000) (broker started_system))))
   \<and> taken_first \<in> set (jobs (worker_take (job_id_of 1 1000) (broker started_system)))
   \<and> jstate taken_first = Active
   \<and> length (outstanding (worker_take (job_id_of 1 1000) (broker started_system)) 1) = 1
   \<and> length (outstanding (snd (processMonitorJob example_rows returns 9000 taken_first
                 (worker_take (job_id_of 1 1000) (broker started_system)))) 1) = 2
   \<and> length (outstanding
        (worker_settle (defaultJobOptions (new_QueueManager None)) (jobId taken_first)
           (fst (processMonitorJob example_rows returns 9000 taken_first
                   (worker_take (job_id_of 1 1000) (broker started_system))))
           (snd (processMonitorJob example_rows returns 9000 taken_first
                   (worker_take (job_id_of 1 1000) (broker started_system))))) 1) \<le> 1
   \<and> job_id_of (monitorId taken_first) 9000 \<notin> set (map jobId (jobs (broker started_system)))
   \<and> length (outstanding (snd (processMonitorJob example_rows returns 9000 taken_first
                 (broker started_system))) 1) = 2"
proof -
  let ?m = "example_monitor 1 ''https://a.example/'' None"
  let ?qt = "worker_take (job_id_of 1 1000) (broker started_system)"
  have a: "uses_queue (integ started_system)" "isInitialized (integ started_system)"
    by (simp_all add: started_system_def queue_system_def broker_up_def example_world_def
        fresh_system_def new_QueueIntegration_def initialize_def startAllMonitors_def uses_queue_def)
  have d: "distinct (map mon_id (find_active (w_rows broker_up)))"
    by (simp add: broker_up_def example_world_def find_active_def example_rows_def example_monitor_def)
  have n: "(2::nat) \<noteq> 1" by simp
  have o1: "length (outstanding (broker started_system) 1) = 1"
    and o2: "length (outstanding (broker started_system) 2) = 1"
    unfolding outstanding_def started_system_jobs
    by (simp_all add: new_job_def is_outstanding_def)
  have ot: "length (outstanding ?qt 1) = 1"
    unfolding outstanding_def started_system_taken
    by (simp add: taken_first_def new_job_def is_outstanding_def)
  have i: "monitorId taken_first = 1" "jstate taken_first = Active"
    by (simp_all add: taken_first_def new_job_def)
  have f: "findOne_active example_rows (monitorId taken_first) = Some ?m"
    by (simp add: taken_first_def new_job_def findOne_active_def example_rows_def example_monitor_def)
  have b: "returns ?m = None" by (simp add: returns_def)
  have h: "job_id_of (monitorId taken_first) 9000 \<notin> set (map jobId (jobs ?qt))"
    unfolding started_system_taken
    by (simp add: taken_first_def new_job_def job_id_of_eq_iff)
  have h': "job_id_of (monitorId taken_first) 9000 \<notin> set (map jobId (jobs (broker started_system)))"
    unfolding started_system_jobs
    by (simp add: taken_first_def new_job_def job_id_of_eq_iff)
  have e: "taken_first \<in> set (jobs ?qt)" unfolding started_system_taken by simp
  note t1 = outstanding_jobs_per_monitor [OF a d n, where rows = example_rows and beat = returns
      and t = 9000 and j = taken_first and q = ?qt and m = ?m and k = 1
      and opts = "defaultJobOptions (new_QueueManager None)"]
  note t2 = outstanding_jobs_per_monitor [OF a d n, where rows = example_rows and beat = returns
      and t = 9000 and j = taken_first and q = "broker started_system" and m = ?m]
  from t1 t2 a d n o1 o2 ot i f b h h' e show ?thesis by simp
qed

subsection \<open>A check that throws\<close>

lemma run_attempts_fail_step:
  assumes "jobs q = pre @ j # post" and "jobId j \<notin> jobId ` set pre" and "jobId j \<notin> jobId ` set post"
    and "jstate j = Waiting \<or> jstate j = Delayed"
    and "findOne_active rows (monitorId j) = Some m" and "beat m = Some e"
  shows "run_attempts qm rows ((beat, t) # rest) (jobId j) q
           = run_attempts qm rows rest (jobId j)
               (q\<lparr>jobs := pre @ after_failure (defaultJobOptions qm) j # post\<rparr>)"
  using pending_at[OF assms(1,4)] by (simp add: attempt_fails[where beat = beat, OF assms])

lemma run_attempts_done:
  assumes "jobs q = pre @ j # post" and "jobId j \<notin> jobId ` set pre" and "jobId j \<notin> jobId ` set post"
    and "jstate j \<noteq> Waiting" and "jstate j \<noteq> Delayed"
  shows "run_attempts qm rows as (jobId j) q = q"
  using not_pending_at[OF assms] by (cases as) auto

text \<open>
  C2, as the claim states it, fails: two monitors have one delayed job each; the check of
  monitor 1 throws at each of the three attempts; afterwards the job of monitor 1 is
  failed with three attempts made, the queue holds no other job for monitor 1, and nothing
  is outstanding for it.
\<close>

theorem no_job_after_three_failures:
  "map (\<lambda>j. (monitorId j, jstate j, attemptsMade j))
     (jobs (run_attempts (new_QueueManager None) example_rows
              [(always_throws, 7000), (always_throws, 10000), (always_throws, 15000)]
              (job_id_of 1 1000)
              (broker (snd (startAllMonitors broker_up queue_system)))))
     = [(1, Failed, 3), (2, Delayed, 0)]
   \<and> outstanding (run_attempts (new_QueueManager None) example_rows
              [(always_throws, 7000), (always_throws, 10000), (always_throws, 15000)]
              (job_id_of 1 1000)
              (broker (snd (startAllMonitors broker_up queue_system)))) 1 = []"
  by (simp add: broker_up_def queue_system_def example_world_def fresh_system_def
      new_QueueIntegration_def initialize_def startAllMonitors_def uses_queue_def
      qm_startAllMonitors_def find_active_def findOne_active_def example_rows_def
      example_monitor_def obliterate_def empty_queue_def queue_add_def new_job_def outstanding_def
      is_outstanding_def job_id_of_def job_name_of_def dec.simps digit_def Let_def
      getJobs_pending_def worker_take_def worker_attempt_def taken_job_def worker_settle_def
      update_job_def
      processMonitorJob_def always_throws_def new_QueueManager_def backoff_def)

text \<open>
  C2, amended. When the check of a job throws, the handler throws the error on and
  schedules nothing. The queue retries the job: after the first failed attempt it is
  delayed by 2000 ms, after the second by 4000 ms, and after the third it is failed and
  never run again; the other jobs of the queue stay as they were and no job is added. The
  next regular job comes from an attempt that returns: if the second attempt returns, the
  job is completed and the queue gains exactly one job for the monitor, at its normal
  interval.
\<close>

theorem failed_check_retried_then_abandoned:
  assumes "jobs q = pre @ j # post" and "jobId j \<notin> jobId ` set pre" and "jobId j \<notin> jobId ` set post"
    and "jstate j = Waiting \<or> jstate j = Delayed" and "attemptsMade j = 0"
    and "findOne_active rows (monitorId j) = Some m"
    and "b1 m = Some e1" and "b2 m = Some e2" and "b3 m = Some e3" and "ok m = None"
    and "job_id_of (monitorId j) t2 \<notin> set (map jobId (jobs q))"
  shows "processMonitorJob rows b1 t1 j q = (Inl e1, q)
       \<and> run_attempts (new_QueueManager c) rows [(b1, t1)] (jobId j) q
           = q\<lparr>jobs := pre @ j\<lparr>attemptsMade := 1, delay := 2000, jstate := Delayed\<rparr> # post\<rparr>
       \<and> run_attempts (new_QueueManager c) rows [(b1, t1), (b2, t2)] (jobId j) q
           = q\<lparr>jobs := pre @ j\<lparr>attemptsMade := 2, delay := 4000, jstate := Delayed\<rparr> # post\<rparr>
       \<and> run_attempts (new_QueueManager c) rows ((b1, t1) # (b2, t2) # (b3, t3) # later) (jobId j) q
           = q\<lparr>jobs := pre @ j\<lparr>attemptsMade := 3, delay := 4000, jstate := Failed\<rparr> # post\<rparr>
       \<and> run_attempts (new_QueueManager c) rows [(b1, t1), (ok, t2)] (jobId j) q
           = q\<lparr>jobs := pre @ j\<lparr>attemptsMade := 2, delay := 2000, jstate := Completed\<rparr>
                            # post @ [next_job m t2]\<rparr>"
proof -
  let ?qm = "new_QueueManager c"
  let ?j1 = "j\<lparr>attemptsMade := Suc 0, delay := 2000, jstate := Delayed\<rparr>"
  let ?j2 = "j\<lparr>attemptsMade := 2, delay := 4000, jstate := Delayed\<rparr>"
  let ?j3 = "j\<lparr>attemptsMade := 3, delay := 4000, jstate := Failed\<rparr>"
  let ?q1 = "q\<lparr>jobs := pre @ ?j1 # post\<rparr>"
  let ?q2 = "q\<lparr>jobs := pre @ ?j2 # post\<rparr>"
  let ?q3 = "q\<lparr>jobs := pre @ ?j3 # post\<rparr>"
  have f1: "after_failure (defaultJobOptions ?qm) j = ?j1"
    using assms(5) by (simp add: after_failure_def new_QueueManager_def backoff_def)
  have f2: "after_failure (defaultJobOptions ?qm) ?j1 = ?j2"
    by (simp add: after_failure_def new_QueueManager_def backoff_def)
  have f3: "after_failure (defaultJobOptions ?qm) ?j2 = ?j3"
    by (simp add: after_failure_def new_QueueManager_def backoff_def)
  have s1: "jobs ?q1 = pre @ ?j1 # post" "jobId ?j1 \<notin> jobId ` set pre" "jobId ?j1 \<notin> jobId ` set post"
    "jstate ?j1 = Waiting \<or> jstate ?j1 = Delayed" "findOne_active rows (monitorId ?j1) = Some m"
    using assms(2,3,6) by simp_all
  have s2: "jobs ?q2 = pre @ ?j2 # post" "jobId ?j2 \<notin> jobId ` set pre" "jobId ?j2 \<notin> jobId ` set post"
    "jstate ?j2 = Waiting \<or> jstate ?j2 = Delayed" "findOne_active rows (monitorId ?j2) = Some m"
    using assms(2,3,6) by simp_all
  have s3: "jobs ?q3 = pre @ ?j3 # post" "jobId ?j3 \<notin> jobId ` set pre" "jobId ?j3 \<notin> jobId ` set post"
    "jstate ?j3 \<noteq> Waiting" "jstate ?j3 \<noteq> Delayed"
    using assms(2,3) by simp_all
  have r1: "run_attempts ?qm rows ((b1, t1) # rest) (jobId j) q = run_attempts ?qm rows rest (jobId j) ?q1"
    for rest
    using run_attempts_fail_step[where beat = b1 and qm = ?qm and t = t1 and rest = rest,
        OF assms(1-4) assms(6,7)] by (simp add: f1 del: run_attempts.simps)
  have r2: "run_attempts ?qm rows ((b2, t2) # rest) (jobId j) ?q1 = run_attempts ?qm rows rest (jobId j) ?q2"
    for rest
    using run_attempts_fail_step[where beat = b2 and qm = ?qm and t = t2 and rest = rest,
        OF s1 assms(8)] by (simp add: f2 del: run_attempts.simps)
  have r3: "run_attempts ?qm rows ((b3, t3) # rest) (jobId j) ?q2 = run_attempts ?qm rows rest (jobId j) ?q3"
    for rest
    using run_attempts_fail_step[where beat = b3 and qm = ?qm and t = t3 and rest = rest,
        OF s2 assms(9)] by (simp add: f3 del: run_attempts.simps)
  have r4: "run_attempts ?qm rows rest (jobId j) ?q3 = ?q3" for rest
    using run_attempts_done[OF s3, of ?qm rows rest] by simp
  have p: "processMonitorJob rows b1 t1 j q = (Inl e1, q)"
    using assms(6,7) by (simp add: processMonitorJob_def)
  have fresh: "job_id_of (monitorId ?j1) t2 \<notin> set (map jobId (jobs ?q1))"
    using assms(1,11) by auto
  have "worker_attempt ?qm rows ok t2 (jobId ?j1) ?q1
          = ?q1\<lparr>jobs := pre @ ?j1\<lparr>attemptsMade := Suc (attemptsMade ?j1), jstate := Completed\<rparr>
                            # post @ [next_job m t2]\<rparr>"
    by (rule attempt_succeeds[where beat = ok, OF s1 assms(10) fresh])
  then have r5: "run_attempts ?qm rows [(ok, t2)] (jobId j) ?q1
          = q\<lparr>jobs := pre @ j\<lparr>attemptsMade := 2, delay := 2000, jstate := Completed\<rparr>
                            # post @ [next_job m t2]\<rparr>"
    using pending_at[OF s1(1) s1(4)] by simp
  from p r1[of "[]"] r1[of "[(b2, t2)]"] r2[of "[]"] r1[of "(b2, t2) # (b3, t3) # later"]
    r2[of "(b3, t3) # later"] r3[of later] r4[of later] r1[of "[(ok, t2)]"] r5
  show ?thesis by simp
qed

theorem failed_check_retried_then_abandoned_witness:
  "jobs \<lparr>jobs = [pending_job 1], counter = 0\<rparr> = [] @ pending_job 1 # []
   \<and> jobId (pending_job 1) \<notin> jobId ` set []
   \<and> (jstate (pending_job 1) = Waiting \<or> jstate (pending_job 1) = Delayed)
   \<and> attemptsMade (pending_job 1) = 0
   \<and> findOne_active example_rows (monitorId (pending_job 1))
       = Some (example_monitor 1 ''https://a.example/'' None)
   \<and> always_throws (example_monitor 1 ''https://a.example/'' None) = Some (Error ''performCheck failed'')
   \<and> returns (example_monitor 1 ''https://a.example/'' None) = None
   \<and> job_id_of (monitorId (pending_job 1)) 9000
       \<notin> set (map jobId (jobs \<lparr>jobs = [pending_job 1], counter = 0\<rparr>))
   \<and> run_attempts (new_QueueManager None) example_rows
        [(always_throws, 7000), (always_throws, 9000), (always_throws, 15000)]
        (jobId (pending_job 1)) \<lparr>jobs = [pending_job 1], counter = 0\<rparr>
       = \<lparr>jobs = [(pending_job 1)\<lparr>attemptsMade := 3, delay := 4000, jstate := Failed\<rparr>], counter = 0\<rparr>
   \<and> run_attempts (new_QueueManager None) example_rows
        [(always_throws, 7000), (returns, 9000)]
        (jobId (pending_job 1)) \<lparr>jobs = [pending_job 1], counter = 0\<rparr>
       = \<lparr>jobs = [(pending_job 1)\<lparr>attemptsMade := 2, delay := 2000, jstate := Completed\<rparr>,
                  next_job (example_monitor 1 ''https://a.example/'' None) 9000], counter = 0\<rparr>"
proof -
  let ?q = "\<lparr>jobs = [pending_job 1], counter = 0\<rparr>"
  let ?m = "example_monitor 1 ''https://a.example/'' None"
  have a: "jobs ?q = [] @ pending_job 1 # []" by simp
  have b: "jobId (pending_job 1) \<notin> jobId ` set []" by simp
  have c: "jstate (pending_job 1) = Waiting \<or> jstate (pending_job 1) = Delayed"
    by (simp add: pending_job_def new_job_def)
  have d: "attemptsMade (pending_job 1) = 0" by (simp add: pending_job_def new_job_def)
  have e: "findOne_active example_rows (monitorId (pending_job 1)) = Some ?m"
    by (simp add: findOne_active_def example_rows_def pending_job_def new_job_def example_monitor_def)
  have f: "always_throws ?m = Some (Error ''performCheck failed'')" by (simp add: always_throws_def)
  have g: "returns ?m = None" by (simp add: returns_def)
  have h: "job_id_of (monitorId (pending_job 1)) 9000 \<notin> set (map jobId (jobs ?q))"
    by (auto simp: pending_job_def new_job_def dest: job_id_of_inj)
  from failed_check_retried_then_abandoned [where q = ?q and pre = "[]" and j = "pending_job 1"
      and post = "[]" and rows = example_rows and m = ?m and ?b1.0 = always_throws
      and ?b2.0 = always_throws and ?b3.0 = always_throws and ok = returns and ?t2.0 = 9000
      and ?t1.0 = 7000 and ?t3.0 = 15000 and later = "[]" and c = None,
      OF a b b c d e f f f g h]
    a b c d e f g h
  show ?thesis by (simp del: run_attempts.simps)
qed

end
